theory Spec2Isabelle
  imports Main "HOL-Library.Sublist"
begin

section \<open>Strings and paths\<close>

text \<open>
  JavaScript strings are modelled as \<open>string\<close> (lists of 8-bit characters). The
  string functions of the runtime that \<open>src/index.js\<close> calls are modelled on the
  ASCII range: \<open>trim\<close> strips the ASCII white space characters, \<open>toLowerCase\<close>
  maps \<open>A\<close>..\<open>Z\<close> to \<open>a\<close>..\<open>z\<close> and leaves every other character alone.
\<close>

definition backslash :: char where
  "backslash = CHR 0x5C"

definition is_space :: "char \<Rightarrow> bool" where
  "is_space c = (c \<in> set [CHR '' '', CHR 0x09, CHR 0x0A, CHR 0x0B, CHR 0x0C, CHR 0x0D])"

definition trim :: "string \<Rightarrow> string" where
  "trim s = rev (dropWhile is_space (rev (dropWhile is_space s)))"

definition lower_char :: "char \<Rightarrow> char" where
  "lower_char c =
     (case map_of (zip ''ABCDEFGHIJKLMNOPQRSTUVWXYZ'' ''abcdefghijklmnopqrstuvwxyz'') c of
        Some l \<Rightarrow> l
      | None \<Rightarrow> c)"

definition toLowerCase :: "string \<Rightarrow> string" where
  "toLowerCase s = map lower_char s"

text \<open>
  \<open>s.split(d)\<close> for a one-character separator: the pieces between the separators,
  empty pieces included; the empty string splits into one empty piece.
\<close>

fun split :: "char \<Rightarrow> string \<Rightarrow> string list" where
  "split d [] = [[]]"
| "split d (c # cs) =
     (if c = d then [] # split d cs
      else (case split d cs of
              [] \<Rightarrow> [[c]]
            | p # ps \<Rightarrow> (c # p) # ps))"

text \<open>\<open>s.replace(/\\/g, "/")\<close>: every backslash becomes a forward slash.\<close>

definition replace_backslashes :: "string \<Rightarrow> string" where
  "replace_backslashes s = map (\<lambda>c. if c = backslash then CHR ''/'' else c) s"

text \<open>
  An absolute path is the list of its segments below the file system root; an empty
  last segment stands for a trailing slash. The functions of Node's \<open>path\<close> module
  are modelled for POSIX: \<open>path.join(dir, p)\<close> with an absolute, normalised
  \<open>dir\<close> appends the segments of \<open>p\<close>, dropping empty and \<open>.\<close> segments and
  letting \<open>..\<close> remove the last segment, and keeps the trailing slash of \<open>p\<close>
  unless the result is the root; \<open>path.dirname\<close> drops the last segment, a
  trailing slash apart; \<open>path.relative(from, to)\<close> climbs from \<open>from\<close> to the
  common ancestor and descends to \<open>to\<close>.
\<close>

type_synonym path = "string list"

fun normalize_onto :: "path \<Rightarrow> string list \<Rightarrow> path" where
  "normalize_onto acc [] = acc"
| "normalize_onto acc (s # ss) =
     (if s = [] \<or> s = ''.'' then normalize_onto acc ss
      else if s = ''..'' then normalize_onto (butlast acc) ss
      else normalize_onto (acc @ [s]) ss)"

definition path_join :: "path \<Rightarrow> string \<Rightarrow> path" where
  "path_join dir p =
     (let segments = normalize_onto dir (split CHR ''/'' p) in
      if p \<noteq> [] \<and> last p = CHR ''/'' \<and> segments \<noteq> [] then segments @ [[]] else segments)"

definition trailing_slash :: "path \<Rightarrow> bool" where
  "trailing_slash p = (p \<noteq> [] \<and> last p = [])"

definition without_slash :: "path \<Rightarrow> path" where
  "without_slash p = (if trailing_slash p then butlast p else p)"

definition dirname :: "path \<Rightarrow> path" where
  "dirname p = butlast (without_slash p)"

fun intercalate :: "string \<Rightarrow> string list \<Rightarrow> string" where
  "intercalate sep [] = []"
| "intercalate sep [s] = s"
| "intercalate sep (s # t # ss) = s @ sep @ intercalate sep (t # ss)"

fun relative_segments :: "path \<Rightarrow> path \<Rightarrow> string list" where
  "relative_segments [] to = to"
| "relative_segments (f # fs) [] = replicate (Suc (length fs)) ''..''"
| "relative_segments (f # fs) (t # ts) =
     (if f = t then relative_segments fs ts
      else replicate (Suc (length fs)) ''..'' @ (t # ts))"

definition path_relative :: "path \<Rightarrow> path \<Rightarrow> string" where
  "path_relative from to = intercalate ''/'' (relative_segments from to)"

section \<open>Configuration: the environment name\<close>

text \<open>
  \<open>initConfig\<close>, lines 75--76:
  \<^verbatim>\<open>const tokenParts = AUTH_TOKEN.trim().split('-');\<close>
  \<^verbatim>\<open>ENV = (tokenParts[2] || options.env || "production").toLowerCase();\<close>
  An index past the end of the array reads \<open>undefined\<close>; \<open>undefined\<close> and the empty
  string are the falsy values a string-or-undefined operand of \<open>||\<close> can take.
  \<open>options.env\<close> is \<open>None\<close> when the option object has no value.
\<close>

definition index_opt :: "'a list \<Rightarrow> nat \<Rightarrow> 'a option" where
  "index_opt xs i = (if i < length xs then Some (xs ! i) else None)"

definition or_else :: "string option \<Rightarrow> string option \<Rightarrow> string option" where
  "or_else a b = (case a of Some (c # cs) \<Rightarrow> a | _ \<Rightarrow> b)"

definition tokenParts :: "string \<Rightarrow> string list" where
  "tokenParts AUTH_TOKEN = split CHR ''-'' (trim AUTH_TOKEN)"

definition ENV :: "string \<Rightarrow> string option \<Rightarrow> string" where
  "ENV AUTH_TOKEN options_env =
     toLowerCase
       (case or_else (or_else (index_opt (tokenParts AUTH_TOKEN) 2) options_env)
               (Some ''production'') of
          Some e \<Rightarrow> e
        | None \<Rightarrow> [])"

section \<open>The file system\<close>

text \<open>
  The disk maps an absolute path (without a trailing slash) to a regular file with
  its content or to a directory. The operations are those of \<open>fs-extra\<close> that the
  program calls; each returns the new disk or the error the promise rejects with.
\<close>

datatype node = File string | Dir

type_synonym filesystem = "path \<Rightarrow> node option"

datatype error =
  TransportError | ENOENT | EEXIST | ENOTDIR | EISDIR | EINVAL | ENOTEMPTY | TypeError

definition is_file :: "node option \<Rightarrow> bool" where
  "is_file n = (case n of Some (File c) \<Rightarrow> True | _ \<Rightarrow> False)"

text \<open>\<open>fs.ensureDir\<close> (mkdir -p): fails when a regular file is in the way.\<close>

definition ensureDir :: "filesystem \<Rightarrow> path \<Rightarrow> error + filesystem" where
  "ensureDir d p =
     (if list_ex (\<lambda>q. is_file (d q)) (prefixes p) then Inl ENOTDIR
      else Inr (\<lambda>q. if prefix q p \<and> d q = None then Some Dir else d q))"

text \<open>
  \<open>fs.outputFile\<close>: creates the parent directories, then writes the file. A path
  with a trailing slash cannot be opened for writing.
\<close>

definition outputFile :: "filesystem \<Rightarrow> path \<Rightarrow> string \<Rightarrow> error + filesystem" where
  "outputFile d p c =
     (case ensureDir d (dirname p) of
        Inl e \<Rightarrow> Inl e
      | Inr d' \<Rightarrow>
          if trailing_slash p \<or> d' p = Some Dir then Inl EISDIR else Inr (d'(p \<mapsto> File c)))"

definition readFile :: "filesystem \<Rightarrow> path \<Rightarrow> error + string" where
  "readFile d p =
     (case d p of
        None \<Rightarrow> Inl ENOENT
      | Some Dir \<Rightarrow> Inl EISDIR
      | Some (File c) \<Rightarrow> Inr c)"

definition unlink :: "filesystem \<Rightarrow> path \<Rightarrow> error + filesystem" where
  "unlink d p =
     (case d p of
        None \<Rightarrow> Inl ENOENT
      | Some Dir \<Rightarrow> Inl EISDIR
      | Some (File c) \<Rightarrow> Inr (d(p := None)))"

text \<open>
  \<open>fs.remove\<close> (rm -rf). When it resolves, the path and everything below it is
  gone. It can reject, for one with \<open>ENOTEMPTY\<close> when a file is written below the
  path while the removal is at work; whether it does is not a function of the disk
  at one moment, so the outcome is given: \<open>None\<close> when the removal resolves, the
  error when it rejects. What a removal that rejects has deleted before is left to
  the events that delete paths.
\<close>

definition remove :: "error option \<Rightarrow> filesystem \<Rightarrow> path \<Rightarrow> error + filesystem" where
  "remove outcome d p =
     (case outcome of
        Some e \<Rightarrow> Inl e
      | None \<Rightarrow> Inr (\<lambda>q. if prefix p q then None else d q))"

text \<open>
  \<open>fs.move(src, dest)\<close> with the default options (no overwrite): the source must
  exist, source and destination must differ, a directory is not moved below itself,
  the destination's parent directories are created, the destination must not exist;
  then the source, with everything below it, is renamed. A regular file cannot be
  renamed to a path with a trailing slash.
\<close>

definition move :: "filesystem \<Rightarrow> path \<Rightarrow> path \<Rightarrow> error + filesystem" where
  "move d src dest' =
     (let dest = without_slash dest' in
      if d src = None then Inl ENOENT
      else if src = dest then Inl EINVAL
      else if d src = Some Dir \<and> prefix src dest then Inl EINVAL
      else (case ensureDir d (dirname dest') of
              Inl e \<Rightarrow> Inl e
            | Inr d' \<Rightarrow>
                if d' dest \<noteq> None then Inl EEXIST
                else if trailing_slash dest' \<and> is_file (d src) then Inl ENOTDIR
                else Inr (\<lambda>q. if prefix dest q then d' (src @ drop (length dest) q)
                              else if prefix src q then None
                              else d' q)))"

section \<open>The remote API\<close>

text \<open>
  A record of the remote, as the endpoints return it:
  \<open>{id, file_path, code, updated_at}\<close>. An id of \<open>0\<close> stands for the falsy ids
  (\<open>if (!file?.id)\<close>), an empty \<open>file_path\<close> for the falsy paths
  (\<open>if (file.file_path)\<close>).
\<close>

record template =
  id_of :: nat
  file_path :: string
  code :: string
  updated_at :: string

datatype request =
    GetAll
  | GetOne nat
  | Patch nat string string
  | PostCli string

text \<open>
  The server is any deterministic function of the request and of the requests made
  before it; each call resolves with the payload or rejects with an error.
  \<open>post_cli\<close> resolves with the \<open>tmpl_main_id\<close> of the schema.
\<close>

record remote =
  get_all :: "request list \<Rightarrow> error + template list"
  get_one :: "request list \<Rightarrow> nat \<Rightarrow> error + template"
  patch :: "request list \<Rightarrow> nat \<Rightarrow> string \<Rightarrow> string \<Rightarrow> error + template"
  post_cli :: "request list \<Rightarrow> string \<Rightarrow> error + nat"

section \<open>The state of the process\<close>

text \<open>
  A timer of the event loop holds what the callback passed to \<open>setTimeout\<close> in
  \<open>scheduleUpdate\<close> closes over: \<open>filePath\<close>, \<open>relativePath\<close> and \<open>file\<close>, the
  record read from \<open>fileMap\<close> when the timer was armed. \<open>due\<close> is the time in
  milliseconds at which it fires.
\<close>

record timer =
  due :: nat
  t_filePath :: path
  t_relativePath :: string
  t_file :: template

text \<open>
  What the callback of a timer and \<open>refreshFile\<close> can be waiting for, with what
  the awaited operation gives when it completes: \<open>fs.readFile\<close> and
  \<open>apiClient.patch\<close> in the callback, \<open>apiClient.get\<close> and \<open>fs.outputFile\<close>
  in \<open>refreshFile\<close>. Each holds what the rest of the function uses.
\<close>

datatype continuation =
    AwaitingRead timer "error + string"
  | AwaitingPatch timer "error + template"
  | AwaitingGet path "error + template"
  | AwaitingWrite string "error option"

datatype line =
    FetchingSource
  | Downloaded nat
  | ErrorFetching
  | Refreshed string
  | ErrorRefreshing
  | SkippingUpdate string
  | UpdatedTemplate string
  | ErrorUpdating
  | RenamedFile string string
  | CreatedModel string
  | ErrorCreating
  | ShuttingDown
  | CleaningUp
  | CleanupComplete
  | ErrorCleanup

text \<open>
  The module's globals (\<open>VIEWS_DIR\<close>, \<open>isShuttingDown\<close>, \<open>pendingUpdates\<close>,
  \<open>fileMap\<close>), and the world around them: the paths the watcher was told to
  \<open>unwatch\<close>, the disk, the timers of the event loop that have not fired or been
  cleared (in the order they were armed, each under its handle), the clock, the
  requests sent so far, the awaits that have not completed yet (\<open>inflight\<close>), the
  environment's coming decisions on whether an await stays pending while other
  events are handled (\<open>schedule\<close>), the console, whether \<open>fs.remove\<close> of the
  workspace is in progress, and the exit code once the process has ended.
\<close>

record state =
  VIEWS_DIR :: path
  isShuttingDown :: bool
  pendingUpdates :: "nat \<Rightarrow> nat option"
  fileMap :: "string \<Rightarrow> template option"
  unwatched :: "path list"
  disk :: filesystem
  timers :: "(nat \<times> timer) list"
  next_handle :: nat
  now :: nat
  requests :: "request list"
  inflight :: "continuation list"
  schedule :: "bool list"
  console :: "line list"
  removing :: bool
  exit_code :: "nat option"

definition DEBOUNCE_DELAY :: nat where
  "DEBOUNCE_DELAY = 1000"

definition relativePath_of :: "state \<Rightarrow> path \<Rightarrow> string" where
  "relativePath_of st filePath = replace_backslashes (path_relative (VIEWS_DIR st) filePath)"

definition say :: "line \<Rightarrow> state \<Rightarrow> state" where
  "say l st = st\<lparr>console := console st @ [l]\<rparr>"

definition sent :: "request \<Rightarrow> state \<Rightarrow> state" where
  "sent r st = st\<lparr>requests := requests st @ [r]\<rparr>"

section \<open>The handlers\<close>

text \<open>
  Each handler is a function from the state to the state. \<open>scheduleUpdate\<close> is
  synchronous. The callback of a timer and \<open>refreshFile\<close> are asynchronous: at
  each \<open>await\<close> the function either goes on at once (the awaited operation
  completes before anything else is handled) or is suspended, and other events are
  handled until the event \<open>Completes\<close> resumes it. Which of the two happens is for
  the environment to decide: \<open>schedule\<close> holds its coming decisions, \<open>True\<close> for
  an await that stays pending; with no decision left, the await completes at once.
  An operation takes effect, and its result is fixed, when it is started. Each
  function is given twice: in one piece, as the code reads when no await is
  suspended (\<open>refreshFile\<close>, \<open>pushUpdate\<close>), and in the pieces between its
  awaits, which is what the event loop runs. \<open>fetchFiles\<close> runs before the watcher
  is started. \<open>createSchema\<close> is embedded in one piece. \<open>handleExit\<close> is split at
  its one await, that of \<open>fs.remove\<close> in \<open>cleanupFiles\<close>.
\<close>

definition or_suspend :: "continuation \<Rightarrow> (state \<Rightarrow> state) \<Rightarrow> state \<Rightarrow> state" where
  "or_suspend k rest st =
     (case schedule st of
        [] \<Rightarrow> rest st
      | pending # decisions \<Rightarrow>
          if pending then st\<lparr>inflight := inflight st @ [k], schedule := decisions\<rparr>
          else rest (st\<lparr>schedule := decisions\<rparr>))"

subsection \<open>\<open>refreshFile\<close>\<close>

text \<open>
  Reading \<open>fileMap[relativePath].id\<close> of an absent entry throws inside the
  \<open>try\<close>; every failure ends in the \<open>catch\<close>, which only logs. The map is
  assigned before the file is written.
\<close>

definition refreshFile :: "remote \<Rightarrow> path \<Rightarrow> state \<Rightarrow> state" where
  "refreshFile srv filePath st =
     (let relativePath = relativePath_of st filePath in
      case fileMap st relativePath of
        None \<Rightarrow> say ErrorRefreshing st
      | Some known \<Rightarrow>
          (case get_one srv (requests st) (id_of known) of
             Inl e \<Rightarrow> say ErrorRefreshing (sent (GetOne (id_of known)) st)
           | Inr template \<Rightarrow>
               (let st1 = (sent (GetOne (id_of known)) st)
                            \<lparr>fileMap := (fileMap st)(relativePath \<mapsto> template)\<rparr> in
                case outputFile (disk st1) filePath (code template) of
                  Inl e \<Rightarrow> say ErrorRefreshing st1
                | Inr d \<Rightarrow> say (Refreshed relativePath) (st1\<lparr>disk := d\<rparr>))))"

text \<open>
  The pieces of \<open>refreshFile\<close>: after \<open>await fs.outputFile\<close>, after
  \<open>await apiClient.get\<close>, and from the start to the request.
\<close>

definition refreshFile_written :: "string \<Rightarrow> error option \<Rightarrow> state \<Rightarrow> state" where
  "refreshFile_written relativePath failure st =
     (case failure of
        Some e \<Rightarrow> say ErrorRefreshing st
      | None \<Rightarrow> say (Refreshed relativePath) st)"

definition refreshFile_fetched :: "path \<Rightarrow> error + template \<Rightarrow> state \<Rightarrow> state" where
  "refreshFile_fetched filePath resp st =
     (let relativePath = relativePath_of st filePath in
      case resp of
        Inl e \<Rightarrow> say ErrorRefreshing st
      | Inr template \<Rightarrow>
          (let st1 = st\<lparr>fileMap := (fileMap st)(relativePath \<mapsto> template)\<rparr> in
           case outputFile (disk st1) filePath (code template) of
             Inl e \<Rightarrow>
               or_suspend (AwaitingWrite relativePath (Some e))
                 (refreshFile_written relativePath (Some e)) st1
           | Inr d \<Rightarrow>
               or_suspend (AwaitingWrite relativePath None)
                 (refreshFile_written relativePath None) (st1\<lparr>disk := d\<rparr>)))"

definition refreshFile_started :: "remote \<Rightarrow> path \<Rightarrow> state \<Rightarrow> state" where
  "refreshFile_started srv filePath st =
     (let relativePath = relativePath_of st filePath in
      case fileMap st relativePath of
        None \<Rightarrow> say ErrorRefreshing st
      | Some known \<Rightarrow>
          (let resp = get_one srv (requests st) (id_of known) in
           or_suspend (AwaitingGet filePath resp) (refreshFile_fetched filePath resp)
             (sent (GetOne (id_of known)) st)))"

subsection \<open>\<open>fetchFiles\<close>\<close>

text \<open>
  The loop over \<open>response.data\<close>. A write that fails leaves the loop for the
  \<open>catch\<close>; what was written and recorded before stays.
\<close>

fun download :: "template list \<Rightarrow> state \<Rightarrow> error option \<times> state" where
  "download [] st = (None, st)"
| "download (file # files) st =
     (if file_path file \<noteq> [] then
        (case outputFile (disk st) (path_join (VIEWS_DIR st) (file_path file)) (code file) of
           Inl e \<Rightarrow> (Some e, st)
         | Inr d \<Rightarrow>
             download files
               (st\<lparr>disk := d,
                   fileMap := (fileMap st)(replace_backslashes (file_path file) \<mapsto> file)\<rparr>))
      else download files st)"

definition fetchFiles :: "remote \<Rightarrow> string \<Rightarrow> state \<Rightarrow> state" where
  "fetchFiles srv agentMdContent st =
     (let st0 = say FetchingSource st in
      case get_all srv (requests st0) of
        Inl e \<Rightarrow> say ErrorFetching (sent GetAll st0)
      | Inr data \<Rightarrow>
          (case ensureDir (disk st0) (VIEWS_DIR st0) of
             Inl e \<Rightarrow> say ErrorFetching (sent GetAll st0)
           | Inr d \<Rightarrow>
               (case download data ((sent GetAll st0)\<lparr>disk := d\<rparr>) of
                  (Some e, st1) \<Rightarrow> say ErrorFetching st1
                | (None, st1) \<Rightarrow>
                    (let st2 = say (Downloaded (length data)) st1 in
                     case outputFile (disk st2) (path_join (VIEWS_DIR st2) ''AGENT.md'')
                            agentMdContent of
                       Inl e \<Rightarrow> say ErrorFetching st2
                     | Inr d' \<Rightarrow> st2\<lparr>disk := d'\<rparr>))))"

subsection \<open>\<open>scheduleUpdate\<close> and the callback of its timer\<close>

definition clearTimeout :: "nat \<Rightarrow> state \<Rightarrow> state" where
  "clearTimeout h st = st\<lparr>timers := filter (\<lambda>(h', t). h' \<noteq> h) (timers st)\<rparr>"

definition setTimeout :: "timer \<Rightarrow> state \<Rightarrow> nat \<times> state" where
  "setTimeout t st =
     (next_handle st,
      st\<lparr>timers := timers st @ [(next_handle st, t)], next_handle := Suc (next_handle st)\<rparr>)"

definition delete_pending :: "nat \<Rightarrow> state \<Rightarrow> state" where
  "delete_pending i st = st\<lparr>pendingUpdates := (pendingUpdates st)(i := None)\<rparr>"

text \<open>
  The arrow function passed to \<open>setTimeout\<close>. \<open>code || "foo bar"\<close> replaces an
  empty content. The comparison and the request use the captured \<open>file\<close>.
\<close>

definition pushUpdate :: "remote \<Rightarrow> timer \<Rightarrow> state \<Rightarrow> state" where
  "pushUpdate srv t st =
     (let filePath = t_filePath t; relativePath = t_relativePath t; file = t_file t in
      case readFile (disk st) filePath of
        Inl e \<Rightarrow> refreshFile srv filePath (say ErrorUpdating st)
      | Inr content \<Rightarrow>
          if content = code file then delete_pending (id_of file) st
          else
            (let body = (if content = [] then ''foo bar'' else content);
                 st1 = sent (Patch (id_of file) body (updated_at file)) st in
             case patch srv (requests st) (id_of file) body (updated_at file) of
               Inl e \<Rightarrow> refreshFile srv filePath (say ErrorUpdating st1)
             | Inr data \<Rightarrow>
                 delete_pending (id_of file)
                   (say (UpdatedTemplate relativePath)
                      (st1\<lparr>fileMap := (fileMap st1)(relativePath \<mapsto> data)\<rparr>))))"

text \<open>
  The pieces of the callback: after \<open>await apiClient.patch\<close>, after
  \<open>await fs.readFile\<close>, and from the start to the read.
\<close>

definition pushUpdate_patched :: "remote \<Rightarrow> timer \<Rightarrow> error + template \<Rightarrow> state \<Rightarrow> state" where
  "pushUpdate_patched srv t resp st =
     (let filePath = t_filePath t; relativePath = t_relativePath t; file = t_file t in
      case resp of
        Inl e \<Rightarrow> refreshFile_started srv filePath (say ErrorUpdating st)
      | Inr data \<Rightarrow>
          delete_pending (id_of file)
            (say (UpdatedTemplate relativePath)
               (st\<lparr>fileMap := (fileMap st)(relativePath \<mapsto> data)\<rparr>)))"

definition pushUpdate_read :: "remote \<Rightarrow> timer \<Rightarrow> error + string \<Rightarrow> state \<Rightarrow> state" where
  "pushUpdate_read srv t result st =
     (let filePath = t_filePath t; file = t_file t in
      case result of
        Inl e \<Rightarrow> refreshFile_started srv filePath (say ErrorUpdating st)
      | Inr content \<Rightarrow>
          if content = code file then delete_pending (id_of file) st
          else
            (let body = (if content = [] then ''foo bar'' else content);
                 resp = patch srv (requests st) (id_of file) body (updated_at file) in
             or_suspend (AwaitingPatch t resp) (pushUpdate_patched srv t resp)
               (sent (Patch (id_of file) body (updated_at file)) st)))"

definition pushUpdate_started :: "remote \<Rightarrow> timer \<Rightarrow> state \<Rightarrow> state" where
  "pushUpdate_started srv t st =
     (let result = readFile (disk st) (t_filePath t) in
      or_suspend (AwaitingRead t result) (pushUpdate_read srv t result) st)"

text \<open>An await completes: the function that waits for it goes on.\<close>

definition resume :: "remote \<Rightarrow> continuation \<Rightarrow> state \<Rightarrow> state" where
  "resume srv k st =
     (case k of
        AwaitingRead t result \<Rightarrow> pushUpdate_read srv t result st
      | AwaitingPatch t resp \<Rightarrow> pushUpdate_patched srv t resp st
      | AwaitingGet filePath resp \<Rightarrow> refreshFile_fetched filePath resp st
      | AwaitingWrite relativePath failure \<Rightarrow> refreshFile_written relativePath failure st)"

definition complete :: "remote \<Rightarrow> nat \<Rightarrow> state \<Rightarrow> state" where
  "complete srv n st =
     (if n < length (inflight st) then
        resume srv (inflight st ! n)
          (st\<lparr>inflight := take n (inflight st) @ drop (Suc n) (inflight st)\<rparr>)
      else st)"

definition scheduleUpdate :: "path \<Rightarrow> state \<Rightarrow> state" where
  "scheduleUpdate filePath st =
     (if isShuttingDown st then st
      else
        (let relativePath = relativePath_of st filePath in
         case fileMap st relativePath of
           None \<Rightarrow> say (SkippingUpdate relativePath) st
         | Some file \<Rightarrow>
             if id_of file = 0 then say (SkippingUpdate relativePath) st
             else
               (let st1 = (case pendingUpdates st (id_of file) of
                             None \<Rightarrow> st
                           | Some h \<Rightarrow> clearTimeout h st);
                    (h, st2) = setTimeout
                                 \<lparr>due = now st1 + DEBOUNCE_DELAY, t_filePath = filePath,
                                  t_relativePath = relativePath, t_file = file\<rparr> st1
                in st2\<lparr>pendingUpdates := (pendingUpdates st2)(id_of file \<mapsto> h)\<rparr>)))"

subsection \<open>\<open>createSchema\<close>\<close>

text \<open>
  The \<open>catch\<close> of \<open>createSchema\<close> logs and unlinks the file. When the unlink
  rejects, the promise of the handler rejects with nobody to handle it, which ends
  the process with exit code 1.
\<close>

definition createSchema_catch :: "path \<Rightarrow> state \<Rightarrow> state" where
  "createSchema_catch filePath st =
     (let st1 = say ErrorCreating st in
      case unlink (disk st1) filePath of
        Inl e \<Rightarrow> st1\<lparr>exit_code := Some 1\<rparr>
      | Inr d \<Rightarrow> st1\<lparr>disk := d\<rparr>)"

definition createSchema :: "remote \<Rightarrow> path \<Rightarrow> state \<Rightarrow> state" where
  "createSchema srv filePath st =
     (if isShuttingDown st then st
      else
        (let relativePath = relativePath_of st filePath;
             st1 = sent (PostCli relativePath) st in
         case post_cli srv (requests st) relativePath of
           Inl e \<Rightarrow> createSchema_catch filePath st1
         | Inr tmpl_main_id \<Rightarrow>
             (let st2 = sent (GetOne tmpl_main_id) st1 in
              case get_one srv (requests st1) tmpl_main_id of
                Inl e \<Rightarrow> createSchema_catch filePath st2
              | Inr template \<Rightarrow>
                  (let record_it = (\<lambda>s. say (CreatedModel (file_path template))
                         (s\<lparr>fileMap := (fileMap s)
                               (replace_backslashes (file_path template) \<mapsto> template)\<rparr>))
                   in
                   if relativePath \<noteq> file_path template then
                     (let newPath = path_join (VIEWS_DIR st2) (file_path template);
                          st3 = st2\<lparr>unwatched := newPath # unwatched st2\<rparr> in
                      case move (disk st3) filePath newPath of
                        Inl e \<Rightarrow> createSchema_catch filePath st3
                      | Inr d \<Rightarrow>
                          record_it
                            (say (RenamedFile relativePath (file_path template))
                               (st3\<lparr>disk := d,
                                    unwatched := removeAll newPath (unwatched st3)\<rparr>)))
                   else record_it st2))))"

subsection \<open>\<open>handleExit\<close> and \<open>cleanupFiles\<close>\<close>

text \<open>
  \<open>handleExit_enter\<close>: the guard, the flag, and \<open>cleanupFiles\<close> up to
  \<open>await fs.remove(VIEWS_DIR)\<close>. \<open>handleExit_resume\<close>: the removal has resolved
  or rejected; the rest of \<open>cleanupFiles\<close> (the \<open>catch\<close> logs the error and
  swallows it), then \<open>process.exit(0)\<close>. \<open>handleExit\<close> is the two without
  anything between.
\<close>

definition handleExit_enter :: "state \<Rightarrow> state" where
  "handleExit_enter st =
     (if isShuttingDown st then st
      else say CleaningUp (say ShuttingDown (st\<lparr>isShuttingDown := True, removing := True\<rparr>)))"

definition handleExit_resume :: "error option \<Rightarrow> state \<Rightarrow> state" where
  "handleExit_resume outcome st =
     (if removing st then
        (case remove outcome (disk st) (VIEWS_DIR st) of
           Inl e \<Rightarrow> say ErrorCleanup st
         | Inr d \<Rightarrow> say CleanupComplete (st\<lparr>disk := d\<rparr>))
          \<lparr>removing := False, exit_code := Some 0\<rparr>
      else st)"


section \<open>The event loop\<close>

text \<open>
  What reaches the process: the watcher's \<open>change\<close> and \<open>add\<close> events, a signal
  (or the menu's quit), the pending \<open>fs.remove\<close> resolving or rejecting, the
  completion of an await that was suspended (by its position among those in flight),
  what the user (or a removal at work) does to the disk, and the environment's
  decisions on the coming awaits. Nothing is handled once the process has exited.
\<close>

datatype event =
    Change path
  | Add path
  | Signal
  | RemoveResolved
  | RemoveRejected error
  | Completes nat
  | Slow "bool list"
  | UserWrites path string
  | UserDeletes path

definition handle :: "remote \<Rightarrow> event \<Rightarrow> state \<Rightarrow> state" where
  "handle srv e st =
     (if exit_code st \<noteq> None then st
      else
        (case e of
           Change filePath \<Rightarrow> scheduleUpdate filePath st
         | Add filePath \<Rightarrow> createSchema srv filePath st
         | Signal \<Rightarrow> handleExit_enter st
         | RemoveResolved \<Rightarrow> handleExit_resume None st
         | RemoveRejected e \<Rightarrow> handleExit_resume (Some e) st
         | Completes n \<Rightarrow> complete srv n st
         | Slow decisions \<Rightarrow> st\<lparr>schedule := decisions\<rparr>
         | UserWrites p c \<Rightarrow> st\<lparr>disk := (disk st)(p \<mapsto> File c)\<rparr>
         | UserDeletes p \<Rightarrow> st\<lparr>disk := (disk st)(p := None)\<rparr>))"

text \<open>
  The timers that are due at time \<open>t\<close> fire in the order they were armed (all have
  the same delay, so this is the order of their due times): the timer leaves the
  event loop and its callback is started. A callback arms and clears no timer, so
  the list to go through is the one at the start.
\<close>

fun fire :: "remote \<Rightarrow> nat \<Rightarrow> (nat \<times> timer) list \<Rightarrow> state \<Rightarrow> state" where
  "fire srv t [] st = st"
| "fire srv t ((h, tm) # rest) st =
     (if due tm \<le> t then
        fire srv t rest
          (pushUpdate_started srv tm ((clearTimeout h st)\<lparr>now := max (now st) (due tm)\<rparr>))
      else fire srv t rest st)"

definition advance :: "remote \<Rightarrow> nat \<Rightarrow> state \<Rightarrow> state" where
  "advance srv t st =
     (if exit_code st \<noteq> None then st
      else (let st' = fire srv t (timers st) st in st'\<lparr>now := max (now st') t\<rparr>))"

fun run :: "remote \<Rightarrow> (nat \<times> event) list \<Rightarrow> state \<Rightarrow> state" where
  "run srv [] st = st"
| "run srv ((t, e) # es) st = run srv es (handle srv e (advance srv t st))"

text \<open>
  The state when \<open>main\<close> starts, after \<open>initConfig\<close> has set \<open>VIEWS_DIR\<close>, and
  \<open>main\<close> up to the point where the watcher is started.
\<close>

definition initial :: "path \<Rightarrow> filesystem \<Rightarrow> state" where
  "initial views_dir d =
     \<lparr>VIEWS_DIR = views_dir, isShuttingDown = False, pendingUpdates = Map.empty,
      fileMap = Map.empty, unwatched = [], disk = d, timers = [], next_handle = 0,
      now = 0, requests = [], inflight = [], schedule = [], console = [],
      removing = False, exit_code = None\<rparr>"

definition main :: "remote \<Rightarrow> string \<Rightarrow> path \<Rightarrow> filesystem \<Rightarrow> state" where
  "main srv agentMdContent views_dir d = fetchFiles srv agentMdContent (initial views_dir d)"

section \<open>Example sessions\<close>

text \<open>
  A workspace \<open>/ws\<close>, a remote with one record at \<open>a.ejs\<close>, and servers that
  answer every request in a fixed way.
\<close>

definition example_record :: template where
  "example_record = \<lparr>id_of = 1, file_path = ''a.ejs'', code = ''A'', updated_at = ''u0''\<rparr>"

definition example_remote :: remote where
  "example_remote =
     \<lparr>get_all = (\<lambda>h. Inr [example_record]),
      get_one = (\<lambda>h i. Inr \<lparr>id_of = i, file_path = ''views/b.ejs'', code = ''B'',
                              updated_at = ''u1''\<rparr>),
      patch = (\<lambda>h i c u. Inr \<lparr>id_of = i, file_path = ''a.ejs'', code = c,
                               updated_at = ''u1''\<rparr>),
      post_cli = (\<lambda>h p. Inr 7)\<rparr>"

definition offline_remote :: remote where
  "offline_remote =
     \<lparr>get_all = (\<lambda>h. Inr [example_record]),
      get_one = (\<lambda>h i. Inl TransportError),
      patch = (\<lambda>h i c u. Inl TransportError),
      post_cli = (\<lambda>h p. Inl TransportError)\<rparr>"

definition example_state :: state where
  "example_state = main example_remote ''guide'' [''ws''] Map.empty"

definition example_path :: path where
  "example_path = [''ws'', ''a.ejs'']"

text \<open>The example after the user has saved \<open>B\<close> to \<open>a.ejs\<close> at time 1000.\<close>

definition example_edited :: state where
  "example_edited =
     run example_remote [(1000, UserWrites example_path ''B''), (1000, Change example_path)]
       example_state"

text \<open>
  A server that answers a provisioning request for \<open>a.ejs\<close> with a record at the
  same path, and a server that rejects every push but still serves records.
\<close>

definition reprovision_remote :: remote where
  "reprovision_remote =
     \<lparr>get_all = (\<lambda>h. Inr [example_record]),
      get_one = (\<lambda>h i. Inr \<lparr>id_of = i, file_path = ''a.ejs'', code = ''B'', updated_at = ''u1''\<rparr>),
      patch = (\<lambda>h i c u. Inr \<lparr>id_of = i, file_path = ''a.ejs'', code = c,
                               updated_at = ''u2''\<rparr>),
      post_cli = (\<lambda>h p. Inr 7)\<rparr>"

definition rejecting_remote :: remote where
  "rejecting_remote =
     \<lparr>get_all = (\<lambda>h. Inr [example_record]),
      get_one = (\<lambda>h i. Inr \<lparr>id_of = i, file_path = ''a.ejs'', code = ''A2'', updated_at = ''u2''\<rparr>),
      patch = (\<lambda>h i c u. Inl TransportError),
      post_cli = (\<lambda>h p. Inl TransportError)\<rparr>"

text \<open>The timer that the modified event of \<open>example_edited\<close> arms.\<close>

definition example_timer :: timer where
  "example_timer = \<lparr>due = 2000, t_filePath = example_path, t_relativePath = ''a.ejs'',
           t_file = example_record\<rparr>"



text \<open>
  A server that only serves a listing, and four listings: two records in
  directories; a record at the path of the reference document; a record whose path
  runs through the file of another; two paths that resolve to the same file.
\<close>

definition serving :: "template list \<Rightarrow> remote" where
  "serving data =
     \<lparr>get_all = (\<lambda>h. Inr data),
      get_one = (\<lambda>h i. Inl TransportError),
      patch = (\<lambda>h i c u. Inl TransportError),
      post_cli = (\<lambda>h p. Inl TransportError)\<rparr>"

definition example_listing :: "template list" where
  "example_listing =
     [\<lparr>id_of = 1, file_path = ''views/pages/home.ejs'', code = ''H'', updated_at = ''u''\<rparr>,
      \<lparr>id_of = 2, file_path = ''css/site.css'', code = ''S'', updated_at = ''u''\<rparr>]"

definition agent_listing :: "template list" where
  "agent_listing = [\<lparr>id_of = 1, file_path = ''AGENT.md'', code = ''X'', updated_at = ''u''\<rparr>]"

definition nested_listing :: "template list" where
  "nested_listing =
     [\<lparr>id_of = 1, file_path = ''a'', code = ''X'', updated_at = ''u''\<rparr>,
      \<lparr>id_of = 2, file_path = ''a/b'', code = ''Y'', updated_at = ''u''\<rparr>]"

definition dotted_listing :: "template list" where
  "dotted_listing =
     [\<lparr>id_of = 1, file_path = ''x.ejs'', code = ''X'', updated_at = ''u''\<rparr>,
      \<lparr>id_of = 2, file_path = ''./x.ejs'', code = ''Y'', updated_at = ''u''\<rparr>]"

text \<open>
  A remote with two records; the user saves \<open>a.ejs\<close> at 1000 and \<open>b.ejs\<close> at
  1900, so that two timers are pending, due at 2000 and at 2900.
\<close>

definition pair_remote :: remote where
  "pair_remote =
     \<lparr>get_all = (\<lambda>h. Inr [example_record,
                            \<lparr>id_of = 2, file_path = ''b.ejs'', code = ''B0'', updated_at = ''v0''\<rparr>]),
      get_one = (\<lambda>h i. Inl TransportError),
      patch = (\<lambda>h i c u. Inr \<lparr>id_of = i, file_path = ''a.ejs'', code = c,
                               updated_at = ''u1''\<rparr>),
      post_cli = (\<lambda>h p. Inl TransportError)\<rparr>"

definition example_pair :: state where
  "example_pair =
     run pair_remote
       [(1000, UserWrites example_path ''B''), (1000, Change example_path),
        (1900, UserWrites [''ws'', ''b.ejs''] ''C''), (1900, Change [''ws'', ''b.ejs''])]
       (main pair_remote ''guide'' [''ws''] Map.empty)"

definition late_timer :: timer where
  "late_timer = \<lparr>due = 2900, t_filePath = [''ws'', ''b.ejs''], t_relativePath = ''b.ejs'',
       t_file = \<lparr>id_of = 2, file_path = ''b.ejs'', code = ''B0'', updated_at = ''v0''\<rparr>\<rparr>"


text \<open>
  Two more listings: a record whose path leaves the workspace, and a record whose
  path ends in a slash, followed by an ordinary one.
\<close>

definition outside_listing :: "template list" where
  "outside_listing = [\<lparr>id_of = 1, file_path = ''../out.ejs'', code = ''X'', updated_at = ''u''\<rparr>]"

definition slash_listing :: "template list" where
  "slash_listing =
     [\<lparr>id_of = 1, file_path = ''dir/'', code = ''X'', updated_at = ''u''\<rparr>,
      \<lparr>id_of = 2, file_path = ''b.ejs'', code = ''Y'', updated_at = ''u''\<rparr>]"

section \<open>Predicates on states\<close>

text \<open>
  The events that end the removal of the workspace, and the states in which the
  shutdown has begun and the removal of the workspace \<open>V\<close> has not ended yet.
\<close>

definition removal_ends :: "event \<Rightarrow> bool" where
  "removal_ends e = (case e of RemoveResolved \<Rightarrow> True | RemoveRejected x \<Rightarrow> True | _ \<Rightarrow> False)"

definition closing :: "path \<Rightarrow> state \<Rightarrow> bool" where
  "closing V st = (isShuttingDown st \<and> removing st \<and> exit_code st = None \<and> VIEWS_DIR st = V)"

text \<open>A state with other timers, and with other flags of the shutdown.\<close>

definition with_timers :: "(nat \<times> timer) list \<Rightarrow> state \<Rightarrow> state" where
  "with_timers x st = st\<lparr>timers := x\<rparr>"

definition with_flags :: "bool \<Rightarrow> bool \<Rightarrow> state \<Rightarrow> state" where
  "with_flags b r st = st\<lparr>isShuttingDown := b, removing := r\<rparr>"

text \<open>
  Where a record's file goes, the key it is stored under, and the disks on which a
  regular file can be written at a path: no regular file is in the way of the
  parent directories, and the path is not a directory.
\<close>

definition target :: "path \<Rightarrow> template \<Rightarrow> path" where
  "target V r = path_join V (file_path r)"

definition key :: "template \<Rightarrow> string" where
  "key r = replace_backslashes (file_path r)"

definition clear_for :: "filesystem \<Rightarrow> path \<Rightarrow> bool" where
  "clear_for d p = (\<not> list_ex (\<lambda>q. is_file (d q)) (prefixes (dirname p)) \<and> d p \<noteq> Some Dir)"

section \<open>Basic facts\<close>

lemma say_simps [simp]:
  "VIEWS_DIR (say l st) = VIEWS_DIR st"
  "isShuttingDown (say l st) = isShuttingDown st"
  "pendingUpdates (say l st) = pendingUpdates st"
  "fileMap (say l st) = fileMap st"
  "unwatched (say l st) = unwatched st"
  "disk (say l st) = disk st"
  "timers (say l st) = timers st"
  "next_handle (say l st) = next_handle st"
  "now (say l st) = now st"
  "requests (say l st) = requests st"
  "inflight (say l st) = inflight st"
  "schedule (say l st) = schedule st"
  "console (say l st) = console st @ [l]"
  "removing (say l st) = removing st"
  "exit_code (say l st) = exit_code st"
  by (simp_all add: say_def)

lemma sent_simps [simp]:
  "VIEWS_DIR (sent r st) = VIEWS_DIR st"
  "isShuttingDown (sent r st) = isShuttingDown st"
  "pendingUpdates (sent r st) = pendingUpdates st"
  "fileMap (sent r st) = fileMap st"
  "unwatched (sent r st) = unwatched st"
  "disk (sent r st) = disk st"
  "timers (sent r st) = timers st"
  "next_handle (sent r st) = next_handle st"
  "now (sent r st) = now st"
  "requests (sent r st) = requests st @ [r]"
  "inflight (sent r st) = inflight st"
  "schedule (sent r st) = schedule st"
  "console (sent r st) = console st"
  "removing (sent r st) = removing st"
  "exit_code (sent r st) = exit_code st"
  by (simp_all add: sent_def)

lemma delete_pending_simps [simp]:
  "VIEWS_DIR (delete_pending i st) = VIEWS_DIR st"
  "isShuttingDown (delete_pending i st) = isShuttingDown st"
  "pendingUpdates (delete_pending i st) = (pendingUpdates st)(i := None)"
  "fileMap (delete_pending i st) = fileMap st"
  "unwatched (delete_pending i st) = unwatched st"
  "disk (delete_pending i st) = disk st"
  "timers (delete_pending i st) = timers st"
  "next_handle (delete_pending i st) = next_handle st"
  "now (delete_pending i st) = now st"
  "requests (delete_pending i st) = requests st"
  "inflight (delete_pending i st) = inflight st"
  "schedule (delete_pending i st) = schedule st"
  "console (delete_pending i st) = console st"
  "removing (delete_pending i st) = removing st"
  "exit_code (delete_pending i st) = exit_code st"
  by (simp_all add: delete_pending_def)

lemma clearTimeout_simps [simp]:
  "VIEWS_DIR (clearTimeout h st) = VIEWS_DIR st"
  "isShuttingDown (clearTimeout h st) = isShuttingDown st"
  "pendingUpdates (clearTimeout h st) = pendingUpdates st"
  "fileMap (clearTimeout h st) = fileMap st"
  "unwatched (clearTimeout h st) = unwatched st"
  "disk (clearTimeout h st) = disk st"
  "timers (clearTimeout h st) = filter (\<lambda>(h', t). h' \<noteq> h) (timers st)"
  "next_handle (clearTimeout h st) = next_handle st"
  "now (clearTimeout h st) = now st"
  "requests (clearTimeout h st) = requests st"
  "inflight (clearTimeout h st) = inflight st"
  "schedule (clearTimeout h st) = schedule st"
  "console (clearTimeout h st) = console st"
  "removing (clearTimeout h st) = removing st"
  "exit_code (clearTimeout h st) = exit_code st"
  by (simp_all add: clearTimeout_def)

lemma relativePath_of_update [simp]:
  "relativePath_of (st\<lparr>isShuttingDown := x0\<rparr>) p = relativePath_of st p"
  "relativePath_of (st\<lparr>pendingUpdates := x1\<rparr>) p = relativePath_of st p"
  "relativePath_of (st\<lparr>fileMap := x2\<rparr>) p = relativePath_of st p"
  "relativePath_of (st\<lparr>unwatched := x3\<rparr>) p = relativePath_of st p"
  "relativePath_of (st\<lparr>disk := x4\<rparr>) p = relativePath_of st p"
  "relativePath_of (st\<lparr>timers := x5\<rparr>) p = relativePath_of st p"
  "relativePath_of (st\<lparr>next_handle := x6\<rparr>) p = relativePath_of st p"
  "relativePath_of (st\<lparr>now := x7\<rparr>) p = relativePath_of st p"
  "relativePath_of (st\<lparr>requests := x8\<rparr>) p = relativePath_of st p"
  "relativePath_of (st\<lparr>inflight := x9\<rparr>) p = relativePath_of st p"
  "relativePath_of (st\<lparr>schedule := x10\<rparr>) p = relativePath_of st p"
  "relativePath_of (st\<lparr>console := x11\<rparr>) p = relativePath_of st p"
  "relativePath_of (st\<lparr>removing := x12\<rparr>) p = relativePath_of st p"
  "relativePath_of (st\<lparr>exit_code := x13\<rparr>) p = relativePath_of st p"
  by (simp_all add: relativePath_of_def)

lemma relativePath_of_say [simp]: "relativePath_of (say l st) p = relativePath_of st p"
  by (simp add: relativePath_of_def)

lemma relativePath_of_sent [simp]: "relativePath_of (sent r st) p = relativePath_of st p"
  by (simp add: relativePath_of_def)

lemma or_else_simps:
  "or_else (Some (c # cs)) b = Some (c # cs)"
  "or_else (Some []) b = b"
  "or_else None b = b"
  by (simp_all add: or_else_def)

lemma refreshFile_frame [simp]:
  "VIEWS_DIR (refreshFile srv p st) = VIEWS_DIR st"
  "isShuttingDown (refreshFile srv p st) = isShuttingDown st"
  "removing (refreshFile srv p st) = removing st"
  "exit_code (refreshFile srv p st) = exit_code st"
  "timers (refreshFile srv p st) = timers st"
  "next_handle (refreshFile srv p st) = next_handle st"
  "now (refreshFile srv p st) = now st"
  "unwatched (refreshFile srv p st) = unwatched st"
  "pendingUpdates (refreshFile srv p st) = pendingUpdates st"
  "inflight (refreshFile srv p st) = inflight st"
  "schedule (refreshFile srv p st) = schedule st"
  by (simp_all add: refreshFile_def Let_def split: option.splits sum.splits)

lemma pushUpdate_frame [simp]:
  "VIEWS_DIR (pushUpdate srv t st) = VIEWS_DIR st"
  "isShuttingDown (pushUpdate srv t st) = isShuttingDown st"
  "removing (pushUpdate srv t st) = removing st"
  "exit_code (pushUpdate srv t st) = exit_code st"
  "timers (pushUpdate srv t st) = timers st"
  "next_handle (pushUpdate srv t st) = next_handle st"
  "now (pushUpdate srv t st) = now st"
  "unwatched (pushUpdate srv t st) = unwatched st"
  "inflight (pushUpdate srv t st) = inflight st"
  "schedule (pushUpdate srv t st) = schedule st"
  by (simp_all add: pushUpdate_def Let_def split: option.splits sum.splits)

lemma refreshFile_written_frame [simp]:
  "VIEWS_DIR (refreshFile_written r f st) = VIEWS_DIR st"
  "isShuttingDown (refreshFile_written r f st) = isShuttingDown st"
  "removing (refreshFile_written r f st) = removing st"
  "exit_code (refreshFile_written r f st) = exit_code st"
  "timers (refreshFile_written r f st) = timers st"
  "next_handle (refreshFile_written r f st) = next_handle st"
  "now (refreshFile_written r f st) = now st"
  "unwatched (refreshFile_written r f st) = unwatched st"
  "pendingUpdates (refreshFile_written r f st) = pendingUpdates st"
  "requests (refreshFile_written r f st) = requests st"
  "fileMap (refreshFile_written r f st) = fileMap st"
  "disk (refreshFile_written r f st) = disk st"
  "inflight (refreshFile_written r f st) = inflight st"
  "schedule (refreshFile_written r f st) = schedule st"
  by (simp_all add: refreshFile_written_def split: option.splits)

lemma refreshFile_fetched_frame [simp]:
  "VIEWS_DIR (refreshFile_fetched p resp st) = VIEWS_DIR st"
  "isShuttingDown (refreshFile_fetched p resp st) = isShuttingDown st"
  "removing (refreshFile_fetched p resp st) = removing st"
  "exit_code (refreshFile_fetched p resp st) = exit_code st"
  "timers (refreshFile_fetched p resp st) = timers st"
  "next_handle (refreshFile_fetched p resp st) = next_handle st"
  "now (refreshFile_fetched p resp st) = now st"
  "unwatched (refreshFile_fetched p resp st) = unwatched st"
  "pendingUpdates (refreshFile_fetched p resp st) = pendingUpdates st"
  "requests (refreshFile_fetched p resp st) = requests st"
  by (simp_all add: refreshFile_fetched_def or_suspend_def Let_def
      split: option.splits sum.splits list.splits)

lemma refreshFile_started_frame [simp]:
  "VIEWS_DIR (refreshFile_started srv p st) = VIEWS_DIR st"
  "isShuttingDown (refreshFile_started srv p st) = isShuttingDown st"
  "removing (refreshFile_started srv p st) = removing st"
  "exit_code (refreshFile_started srv p st) = exit_code st"
  "timers (refreshFile_started srv p st) = timers st"
  "next_handle (refreshFile_started srv p st) = next_handle st"
  "now (refreshFile_started srv p st) = now st"
  "unwatched (refreshFile_started srv p st) = unwatched st"
  "pendingUpdates (refreshFile_started srv p st) = pendingUpdates st"
  by (simp_all add: refreshFile_started_def or_suspend_def Let_def
      split: option.splits sum.splits list.splits)

lemma pushUpdate_patched_frame [simp]:
  "VIEWS_DIR (pushUpdate_patched srv t resp st) = VIEWS_DIR st"
  "isShuttingDown (pushUpdate_patched srv t resp st) = isShuttingDown st"
  "removing (pushUpdate_patched srv t resp st) = removing st"
  "exit_code (pushUpdate_patched srv t resp st) = exit_code st"
  "timers (pushUpdate_patched srv t resp st) = timers st"
  "next_handle (pushUpdate_patched srv t resp st) = next_handle st"
  "now (pushUpdate_patched srv t resp st) = now st"
  "unwatched (pushUpdate_patched srv t resp st) = unwatched st"
  by (simp_all add: pushUpdate_patched_def Let_def split: sum.splits)

lemma pushUpdate_read_frame [simp]:
  "VIEWS_DIR (pushUpdate_read srv t result st) = VIEWS_DIR st"
  "isShuttingDown (pushUpdate_read srv t result st) = isShuttingDown st"
  "removing (pushUpdate_read srv t result st) = removing st"
  "exit_code (pushUpdate_read srv t result st) = exit_code st"
  "timers (pushUpdate_read srv t result st) = timers st"
  "next_handle (pushUpdate_read srv t result st) = next_handle st"
  "now (pushUpdate_read srv t result st) = now st"
  "unwatched (pushUpdate_read srv t result st) = unwatched st"
  by (simp_all add: pushUpdate_read_def or_suspend_def Let_def
      split: sum.splits list.splits)

lemma pushUpdate_started_frame [simp]:
  "VIEWS_DIR (pushUpdate_started srv t st) = VIEWS_DIR st"
  "isShuttingDown (pushUpdate_started srv t st) = isShuttingDown st"
  "removing (pushUpdate_started srv t st) = removing st"
  "exit_code (pushUpdate_started srv t st) = exit_code st"
  "timers (pushUpdate_started srv t st) = timers st"
  "next_handle (pushUpdate_started srv t st) = next_handle st"
  "now (pushUpdate_started srv t st) = now st"
  "unwatched (pushUpdate_started srv t st) = unwatched st"
  by (simp_all add: pushUpdate_started_def or_suspend_def Let_def split: list.splits)

lemma resume_frame [simp]:
  "VIEWS_DIR (resume srv k st) = VIEWS_DIR st"
  "isShuttingDown (resume srv k st) = isShuttingDown st"
  "removing (resume srv k st) = removing st"
  "exit_code (resume srv k st) = exit_code st"
  "timers (resume srv k st) = timers st"
  "next_handle (resume srv k st) = next_handle st"
  "now (resume srv k st) = now st"
  "unwatched (resume srv k st) = unwatched st"
  by (simp_all add: resume_def split: continuation.splits)

lemma complete_frame [simp]:
  "VIEWS_DIR (complete srv n st) = VIEWS_DIR st"
  "isShuttingDown (complete srv n st) = isShuttingDown st"
  "removing (complete srv n st) = removing st"
  "exit_code (complete srv n st) = exit_code st"
  "timers (complete srv n st) = timers st"
  "next_handle (complete srv n st) = next_handle st"
  "now (complete srv n st) = now st"
  "unwatched (complete srv n st) = unwatched st"
  by (simp_all add: complete_def)

text \<open>With no await suspended, the pieces make up the function in one piece.\<close>

lemma refreshFile_started_at_once:
  "schedule st = [] \<Longrightarrow> refreshFile_started srv p st = refreshFile srv p st"
  by (simp add: refreshFile_started_def refreshFile_fetched_def refreshFile_written_def
      refreshFile_def or_suspend_def Let_def split: option.splits sum.splits)

lemma pushUpdate_started_at_once:
  "schedule st = [] \<Longrightarrow> pushUpdate_started srv t st = pushUpdate srv t st"
  by (simp add: pushUpdate_started_def pushUpdate_read_def pushUpdate_patched_def
      pushUpdate_def or_suspend_def Let_def refreshFile_started_at_once
      split: option.splits sum.splits)

lemma not_prefix_butlast: "p \<noteq> [] \<Longrightarrow> \<not> prefix p (butlast p)"
  by (metis append_butlast_last_id prefix_order.dual_order.antisym prefixI
      append_self_conv not_Cons_self2)

lemma dirname_plain: "\<not> trailing_slash p \<Longrightarrow> dirname p = butlast p"
  by (simp add: dirname_def without_slash_def)

lemma outputFile_succeeds:
  assumes "\<not> list_ex (\<lambda>q. is_file (d q)) (prefixes (dirname p))" "d p \<noteq> Some Dir"
    and "p \<noteq> []" "\<not> trailing_slash p"
  shows "\<exists>d'. outputFile d p c = Inr d'"
  using assms not_prefix_butlast [of p]
  by (simp add: outputFile_def ensureDir_def dirname_plain)

lemma outputFile_written:
  "outputFile d p c = Inr d' \<Longrightarrow> d' p = Some (File c)"
  by (auto simp: outputFile_def split: sum.splits if_splits)

lemma outputFile_other:
  "outputFile d p c = Inr d' \<Longrightarrow> d q = Some (File x) \<Longrightarrow> q \<noteq> p \<Longrightarrow> d' q = Some (File x)"
  by (auto simp: outputFile_def ensureDir_def split: sum.splits if_splits)


lemma fire_frame:
  "VIEWS_DIR (fire srv t tms st) = VIEWS_DIR st \<and>
   isShuttingDown (fire srv t tms st) = isShuttingDown st \<and>
   removing (fire srv t tms st) = removing st \<and>
   exit_code (fire srv t tms st) = exit_code st \<and>
   unwatched (fire srv t tms st) = unwatched st \<and>
   next_handle (fire srv t tms st) = next_handle st"
  by (induction srv t tms st rule: fire.induct) simp_all

lemma advance_frame:
  "VIEWS_DIR (advance srv t st) = VIEWS_DIR st \<and>
   isShuttingDown (advance srv t st) = isShuttingDown st \<and>
   removing (advance srv t st) = removing st \<and>
   exit_code (advance srv t st) = exit_code st \<and>
   unwatched (advance srv t st) = unwatched st \<and>
   next_handle (advance srv t st) = next_handle st"
  using fire_frame [of srv t "timers st" st] by (simp add: advance_def Let_def)

lemma handle_exited [simp]: "exit_code st \<noteq> None \<Longrightarrow> handle srv e st = st"
  by (simp add: handle_def)

lemma advance_exited [simp]: "exit_code st \<noteq> None \<Longrightarrow> advance srv t st = st"
  by (simp add: advance_def)

lemma run_exited: "exit_code st \<noteq> None \<Longrightarrow> run srv es st = st"
  by (induction es) auto

lemma run_append: "run srv (es @ es') st = run srv es' (run srv es st)"
  by (induction es arbitrary: st) auto

text \<open>What firing does to the timers: those that are due leave the event loop.\<close>

lemma fire_timers:
  "timers (fire srv t tms st) =
     filter (\<lambda>(h, tm). h \<notin> fst ` {x \<in> set tms. due (snd x) \<le> t}) (timers st)"
proof (induction srv t tms st rule: fire.induct)
  case (1 srv t st)
  then show ?case by simp
next
  case (2 srv t h tm rest st)
  show ?case
  proof (cases "due tm \<le> t")
    case True
    have split: "{x \<in> set ((h, tm) # rest). due (snd x) \<le> t} =
        insert (h, tm) {x \<in> set rest. due (snd x) \<le> t}"
      using True by auto
    have "timers (fire srv t ((h, tm) # rest) st) =
        filter (\<lambda>(h', tm'). h' \<notin> fst ` {x \<in> set rest. due (snd x) \<le> t})
          (filter (\<lambda>(h', tm'). h' \<noteq> h) (timers st))"
      using True 2(1) by (simp add: pushUpdate_started_frame clearTimeout_def)
    also have "\<dots> = filter (\<lambda>(h', tm'). h' \<notin> fst ` insert (h, tm) {x \<in> set rest. due (snd x) \<le> t})
          (timers st)"
      by (auto intro: filter_cong)
    finally show ?thesis
      unfolding split .
  next
    case False
    have "{x \<in> set ((h, tm) # rest). due (snd x) \<le> t} = {x \<in> set rest. due (snd x) \<le> t}"
      using False by auto
    with False 2(2) show ?thesis
      by simp
  qed
qed

lemma advance_timers:
  "exit_code st = None \<Longrightarrow>
   timers (advance srv t st) =
     filter (\<lambda>(h, tm). h \<notin> fst ` {x \<in> set (timers st). due (snd x) \<le> t}) (timers st)"
  by (simp add: advance_def Let_def fire_timers)

lemma timer_stays:
  assumes "(h, tm) \<in> set (timers st)" "t < due tm" "distinct (map fst (timers st))"
  shows "(h, tm) \<in> set (timers (advance srv t st))"
proof (cases "exit_code st = None")
  case False
  with assms show ?thesis by simp
next
  case True
  have "h \<notin> fst ` {x \<in> set (timers st). due (snd x) \<le> t}"
  proof
    assume "h \<in> fst ` {x \<in> set (timers st). due (snd x) \<le> t}"
    then obtain tm' where other: "(h, tm') \<in> set (timers st)" "due tm' \<le> t"
      by auto
    from assms(3) assms(1) other(1) have "tm' = tm"
      by (meson eq_key_imp_eq_value)
    with other(2) assms(2) show False
      by simp
  qed
  with assms(1) True show ?thesis
    by (simp add: advance_timers)
qed

lemma advance_distinct:
  "distinct (map fst (timers st)) \<Longrightarrow> distinct (map fst (timers (advance srv t st)))"
  by (cases "exit_code st = None") (simp_all add: advance_timers distinct_map_filter)

lemma fire_none_due: "\<forall>(h, tm) \<in> set tms. t < due tm \<Longrightarrow> fire srv t tms st = st"
  by (induction tms arbitrary: st) auto

text \<open>While the removal is in progress.\<close>

lemma handle_closing:
  assumes "closing V st" "\<not> removal_ends e"
  shows "closing V (handle srv e st)" and "timers (handle srv e st) = timers st"
  using assms
  by (cases e; simp add: closing_def handle_def scheduleUpdate_def createSchema_def
      handleExit_enter_def removal_ends_def complete_frame)+

lemma advance_closing: "closing V st \<Longrightarrow> closing V (advance srv t st)"
  using advance_frame [of srv t st] by (simp add: closing_def)

lemma run_closing:
  assumes "closing V st" "\<forall>(t, e) \<in> set es. \<not> removal_ends e"
  shows "closing V (run srv es st)"
  using assms
proof (induction es arbitrary: st)
  case Nil
  then show ?case by simp
next
  case (Cons te es)
  obtain t e where te: "te = (t, e)" by (cases te)
  with Cons.prems have "closing V (handle srv e (advance srv t st))"
    by (auto intro: handle_closing advance_closing)
  with Cons te show ?case by simp
qed

lemma resume_closing:
  assumes "closing V st"
  shows "exit_code (handleExit_resume outcome st) = Some 0"
    and "prefix V q \<Longrightarrow> disk (handleExit_resume None st) q = None"
    and "disk (handleExit_resume (Some e) st) = disk st"
    and "console (handleExit_resume (Some e) st) = console st @ [ErrorCleanup]"
    and "timers (handleExit_resume outcome st) = timers st"
  using assms
  by (cases outcome; simp add: closing_def handleExit_resume_def remove_def)+

lemma enter_closing:
  assumes "\<not> isShuttingDown st" "exit_code st = None"
  shows "closing (VIEWS_DIR st) (handleExit_enter st)"
  using assms by (simp add: closing_def handleExit_enter_def)

lemma with_timers_select [simp]:
  "VIEWS_DIR (with_timers x st) = VIEWS_DIR st"
  "isShuttingDown (with_timers x st) = isShuttingDown st"
  "pendingUpdates (with_timers x st) = pendingUpdates st"
  "fileMap (with_timers x st) = fileMap st"
  "unwatched (with_timers x st) = unwatched st"
  "disk (with_timers x st) = disk st"
  "next_handle (with_timers x st) = next_handle st"
  "now (with_timers x st) = now st"
  "requests (with_timers x st) = requests st"
  "inflight (with_timers x st) = inflight st"
  "schedule (with_timers x st) = schedule st"
  "console (with_timers x st) = console st"
  "removing (with_timers x st) = removing st"
  "exit_code (with_timers x st) = exit_code st"
  by (simp_all add: with_timers_def)

lemma with_timers_out [simp]:
  "(with_timers x st)\<lparr>pendingUpdates := vpendingUpdates\<rparr> = with_timers x (st\<lparr>pendingUpdates := vpendingUpdates\<rparr>)"
  "(with_timers x st)\<lparr>fileMap := vfileMap\<rparr> = with_timers x (st\<lparr>fileMap := vfileMap\<rparr>)"
  "(with_timers x st)\<lparr>disk := vdisk\<rparr> = with_timers x (st\<lparr>disk := vdisk\<rparr>)"
  "(with_timers x st)\<lparr>requests := vrequests\<rparr> = with_timers x (st\<lparr>requests := vrequests\<rparr>)"
  "(with_timers x st)\<lparr>inflight := vinflight\<rparr> = with_timers x (st\<lparr>inflight := vinflight\<rparr>)"
  "(with_timers x st)\<lparr>schedule := vschedule\<rparr> = with_timers x (st\<lparr>schedule := vschedule\<rparr>)"
  "(with_timers x st)\<lparr>console := vconsole\<rparr> = with_timers x (st\<lparr>console := vconsole\<rparr>)"
  "(with_timers x st)\<lparr>now := vnow\<rparr> = with_timers x (st\<lparr>now := vnow\<rparr>)"
  "((with_timers x st)\<lparr>inflight := vinflight, schedule := vschedule\<rparr>) = with_timers x (st\<lparr>inflight := vinflight, schedule := vschedule\<rparr>)"
  "say l (with_timers x st) = with_timers x (say l st)"
  "sent q (with_timers x st) = with_timers x (sent q st)"
  "delete_pending i (with_timers x st) = with_timers x (delete_pending i st)"
  "relativePath_of (with_timers x st) p = relativePath_of st p"
  by (simp_all add: with_timers_def say_def sent_def delete_pending_def relativePath_of_def)

lemma refreshFile_written_with_timers [simp]:
  "refreshFile_written r f (with_timers x st) = with_timers x (refreshFile_written r f st)"
  by (simp add: refreshFile_written_def split: option.splits)

lemma refreshFile_fetched_with_timers [simp]:
  "refreshFile_fetched p resp (with_timers x st) = with_timers x (refreshFile_fetched p resp st)"
  by (simp add: refreshFile_fetched_def or_suspend_def Let_def split: sum.splits list.splits)

lemma refreshFile_started_with_timers [simp]:
  "refreshFile_started srv p (with_timers x st) = with_timers x (refreshFile_started srv p st)"
  by (simp add: refreshFile_started_def or_suspend_def Let_def split: option.splits list.splits)

lemma pushUpdate_patched_with_timers [simp]:
  "pushUpdate_patched srv t resp (with_timers x st) = with_timers x (pushUpdate_patched srv t resp st)"
  by (simp add: pushUpdate_patched_def Let_def split: sum.splits)

lemma pushUpdate_read_with_timers [simp]:
  "pushUpdate_read srv t result (with_timers x st) = with_timers x (pushUpdate_read srv t result st)"
  by (simp add: pushUpdate_read_def or_suspend_def Let_def split: sum.splits list.splits)

lemma pushUpdate_started_with_timers [simp]:
  "pushUpdate_started srv t (with_timers x st) = with_timers x (pushUpdate_started srv t st)"
  by (simp add: pushUpdate_started_def or_suspend_def Let_def split: list.splits)

lemma resume_with_timers [simp]:
  "resume srv k (with_timers x st) = with_timers x (resume srv k st)"
  by (simp add: resume_def split: continuation.splits)

lemma complete_with_timers [simp]:
  "complete srv n (with_timers x st) = with_timers x (complete srv n st)"
  by (simp add: complete_def )

lemma with_flags_select [simp]:
  "VIEWS_DIR (with_flags b r st) = VIEWS_DIR st"
  "pendingUpdates (with_flags b r st) = pendingUpdates st"
  "fileMap (with_flags b r st) = fileMap st"
  "unwatched (with_flags b r st) = unwatched st"
  "disk (with_flags b r st) = disk st"
  "timers (with_flags b r st) = timers st"
  "next_handle (with_flags b r st) = next_handle st"
  "now (with_flags b r st) = now st"
  "requests (with_flags b r st) = requests st"
  "inflight (with_flags b r st) = inflight st"
  "schedule (with_flags b r st) = schedule st"
  "console (with_flags b r st) = console st"
  "exit_code (with_flags b r st) = exit_code st"
  by (simp_all add: with_flags_def)

lemma with_flags_out [simp]:
  "(with_flags b r st)\<lparr>pendingUpdates := vpendingUpdates\<rparr> = with_flags b r (st\<lparr>pendingUpdates := vpendingUpdates\<rparr>)"
  "(with_flags b r st)\<lparr>fileMap := vfileMap\<rparr> = with_flags b r (st\<lparr>fileMap := vfileMap\<rparr>)"
  "(with_flags b r st)\<lparr>disk := vdisk\<rparr> = with_flags b r (st\<lparr>disk := vdisk\<rparr>)"
  "(with_flags b r st)\<lparr>requests := vrequests\<rparr> = with_flags b r (st\<lparr>requests := vrequests\<rparr>)"
  "(with_flags b r st)\<lparr>inflight := vinflight\<rparr> = with_flags b r (st\<lparr>inflight := vinflight\<rparr>)"
  "(with_flags b r st)\<lparr>schedule := vschedule\<rparr> = with_flags b r (st\<lparr>schedule := vschedule\<rparr>)"
  "(with_flags b r st)\<lparr>console := vconsole\<rparr> = with_flags b r (st\<lparr>console := vconsole\<rparr>)"
  "(with_flags b r st)\<lparr>now := vnow\<rparr> = with_flags b r (st\<lparr>now := vnow\<rparr>)"
  "((with_flags b r st)\<lparr>inflight := vinflight, schedule := vschedule\<rparr>) = with_flags b r (st\<lparr>inflight := vinflight, schedule := vschedule\<rparr>)"
  "say l (with_flags b r st) = with_flags b r (say l st)"
  "sent q (with_flags b r st) = with_flags b r (sent q st)"
  "delete_pending i (with_flags b r st) = with_flags b r (delete_pending i st)"
  "relativePath_of (with_flags b r st) p = relativePath_of st p"
  by (simp_all add: with_flags_def say_def sent_def delete_pending_def relativePath_of_def)

lemma refreshFile_written_with_flags [simp]:
  "refreshFile_written rp f (with_flags b r st) = with_flags b r (refreshFile_written rp f st)"
  by (simp add: refreshFile_written_def split: option.splits)

lemma refreshFile_fetched_with_flags [simp]:
  "refreshFile_fetched p resp (with_flags b r st) = with_flags b r (refreshFile_fetched p resp st)"
  by (simp add: refreshFile_fetched_def or_suspend_def Let_def split: sum.splits list.splits)

lemma refreshFile_started_with_flags [simp]:
  "refreshFile_started srv p (with_flags b r st) = with_flags b r (refreshFile_started srv p st)"
  by (simp add: refreshFile_started_def or_suspend_def Let_def split: option.splits list.splits)

lemma pushUpdate_patched_with_flags [simp]:
  "pushUpdate_patched srv t resp (with_flags b r st) = with_flags b r (pushUpdate_patched srv t resp st)"
  by (simp add: pushUpdate_patched_def Let_def split: sum.splits)

lemma pushUpdate_read_with_flags [simp]:
  "pushUpdate_read srv t result (with_flags b r st) = with_flags b r (pushUpdate_read srv t result st)"
  by (simp add: pushUpdate_read_def or_suspend_def Let_def split: sum.splits list.splits)

lemma pushUpdate_started_with_flags [simp]:
  "pushUpdate_started srv t (with_flags b r st) = with_flags b r (pushUpdate_started srv t st)"
  by (simp add: pushUpdate_started_def or_suspend_def Let_def split: list.splits)

lemma resume_with_flags [simp]:
  "resume srv k (with_flags b r st) = with_flags b r (resume srv k st)"
  by (simp add: resume_def split: continuation.splits)

lemma complete_with_flags [simp]:
  "complete srv n (with_flags b r st) = with_flags b r (complete srv n st)"
  by (simp add: complete_def )

text \<open>A timer that is not due takes no part in what happens.\<close>

lemma clearTimeout_with_timers:
  "clearTimeout h st = with_timers (filter (\<lambda>(h', t). h' \<noteq> h) (timers st)) st"
  by (simp add: clearTimeout_def with_timers_def)

lemma pushUpdate_started_clearTimeout:
  "pushUpdate_started srv t (clearTimeout h st) = clearTimeout h (pushUpdate_started srv t st)"
  by (simp add: clearTimeout_with_timers)

lemma complete_clearTimeout:
  "complete srv n (clearTimeout h st) = clearTimeout h (complete srv n st)"
  by (simp add: clearTimeout_with_timers)

lemma clearTimeout_commute:
  "clearTimeout h' (clearTimeout h st) = clearTimeout h (clearTimeout h' st)"
  by (simp add: clearTimeout_def conj_commute)

lemma clearTimeout_now:
  "(clearTimeout h st)\<lparr>now := v\<rparr> = clearTimeout h (st\<lparr>now := v\<rparr>)"
  by (simp add: clearTimeout_def)

lemma fire_without:
  assumes "\<forall>(h', tm') \<in> set tms. h' = h \<longrightarrow> t < due tm'"
  shows "fire srv t (filter (\<lambda>(h', tm'). h' \<noteq> h) tms) (clearTimeout h st) =
         clearTimeout h (fire srv t tms st)"
  using assms
proof (induction tms arbitrary: st)
  case Nil
  then show ?case by simp
next
  case (Cons a tms)
  obtain h' tm' where a: "a = (h', tm')" by (cases a)
  from Cons.prems have rest: "\<forall>(h', tm') \<in> set tms. h' = h \<longrightarrow> t < due tm'"
    by simp
  note IH = Cons.IH [OF rest]
  show ?case
  proof (cases "due tm' \<le> t")
    case False
    then show ?thesis
      using IH by (simp add: a)
  next
    case True
    with Cons.prems a have other: "h' \<noteq> h"
      by auto
    have "pushUpdate_started srv tm'
            ((clearTimeout h' (clearTimeout h st))\<lparr>now := max (now st) (due tm')\<rparr>) =
          clearTimeout h (pushUpdate_started srv tm'
            ((clearTimeout h' st)\<lparr>now := max (now st) (due tm')\<rparr>))"
      by (simp only: clearTimeout_commute [of h' h] clearTimeout_now
          pushUpdate_started_clearTimeout)
    then show ?thesis
      using True other IH by (simp add: a)
  qed
qed

lemma advance_without:
  assumes "\<forall>(h', tm') \<in> set (timers st). h' = h \<longrightarrow> t < due tm'"
  shows "advance srv t (clearTimeout h st) = clearTimeout h (advance srv t st)"
proof (cases "exit_code st = None")
  case False
  then show ?thesis by (simp add: advance_def)
next
  case True
  have "timers (clearTimeout h st) = filter (\<lambda>(h', tm'). h' \<noteq> h) (timers st)"
    by (simp add: clearTimeout_def)
  then show ?thesis
    using True fire_without [OF assms, of srv st]
    by (simp add: advance_def Let_def clearTimeout_now)
qed

lemma handleExit_enter_without:
  "handleExit_enter (clearTimeout h st) = clearTimeout h (handleExit_enter st)"
  by (simp add: handleExit_enter_def clearTimeout_def say_def)

lemma handle_without:
  assumes "isShuttingDown st"
  shows "handle srv e (clearTimeout h st) = clearTimeout h (handle srv e st)"
proof (cases "exit_code st = None")
  case False
  then show ?thesis by (simp add: handle_def)
next
  case True
  with assms show ?thesis
    by (cases e)
      (simp_all add: handle_def scheduleUpdate_def createSchema_def handleExit_enter_def
        complete_clearTimeout,
       simp_all add: clearTimeout_def handleExit_resume_def say_def remove_def
        split: option.splits)
qed

lemma handle_flag:
  "isShuttingDown st \<Longrightarrow> isShuttingDown (handle srv e st)"
  "isShuttingDown st \<Longrightarrow> timers (handle srv e st) = timers st"
  by (cases "exit_code st = None"; cases e;
      simp add: handle_def scheduleUpdate_def createSchema_def handleExit_enter_def
        handleExit_resume_def say_def split: sum.splits)+

lemma advance_subset: "set (timers (advance srv t st)) \<subseteq> set (timers st)"
  by (cases "exit_code st = None") (auto simp: advance_timers)

lemma run_without:
  assumes "isShuttingDown st"
    and "\<forall>(h', tm') \<in> set (timers st). h' = h \<longrightarrow> T < due tm'"
    and "\<forall>(t, e) \<in> set es. t \<le> T"
  shows "run srv es (clearTimeout h st) = clearTimeout h (run srv es st)"
  using assms
proof (induction es arbitrary: st)
  case Nil
  then show ?case by simp
next
  case (Cons te es)
  obtain t e where te: "te = (t, e)" by (cases te)
  with Cons.prems(3) have t: "t \<le> T" and es: "\<forall>(t, e) \<in> set es. t \<le> T"
    by auto
  let ?a = "advance srv t st"
  let ?b = "handle srv e ?a"
  from Cons.prems(2) t have now: "\<forall>(h', tm') \<in> set (timers st). h' = h \<longrightarrow> t < due tm'"
    by fastforce
  have flag_a: "isShuttingDown ?a"
    using advance_frame [of srv t st] Cons.prems(1) by simp
  have late_a: "\<forall>(h', tm') \<in> set (timers ?a). h' = h \<longrightarrow> T < due tm'"
    using Cons.prems(2) advance_subset [of srv t st] by blast
  have flag_b: "isShuttingDown ?b" and late_b: "\<forall>(h', tm') \<in> set (timers ?b). h' = h \<longrightarrow> T < due tm'"
    using handle_flag [OF flag_a, of srv e] late_a by simp_all
  have "run srv (te # es) (clearTimeout h st) = run srv es (clearTimeout h ?b)"
    by (simp add: te advance_without [OF now] handle_without [OF flag_a])
  also have "\<dots> = clearTimeout h (run srv es ?b)"
    using flag_b late_b es by (rule Cons.IH)
  finally show ?case
    by (simp add: te)
qed

lemma run_closing_timer:
  assumes "closing V st" and "(h, tm) \<in> set (timers st)" and "distinct (map fst (timers st))"
    and "T < due tm" and "\<forall>(t, e) \<in> set es. t \<le> T \<and> \<not> removal_ends e"
  shows "(h, tm) \<in> set (timers (run srv es st)) \<and> distinct (map fst (timers (run srv es st)))"
  using assms
proof (induction es arbitrary: st)
  case Nil
  then show ?case by simp
next
  case (Cons te es)
  obtain t e where te: "te = (t, e)" by (cases te)
  with Cons.prems(5) have t: "t \<le> T" and e: "\<not> removal_ends e"
    and es: "\<forall>(t, e) \<in> set es. t \<le> T \<and> \<not> removal_ends e"
    by auto
  let ?a = "advance srv t st"
  let ?b = "handle srv e ?a"
  from t Cons.prems(4) have "t < due tm" by simp
  then have a: "(h, tm) \<in> set (timers ?a)" "distinct (map fst (timers ?a))" "closing V ?a"
    using Cons.prems(1,2,3) by (simp_all add: timer_stays advance_distinct advance_closing)
  have b: "(h, tm) \<in> set (timers ?b)" "distinct (map fst (timers ?b))" "closing V ?b"
    using handle_closing [OF a(3) e, of srv] a(1,2) by simp_all
  from Cons.IH [OF b(3) b(1) b(2) Cons.prems(4) es] show ?case
    by (simp add: te)
qed

text \<open>Firing and resuming do not look at the flags of the shutdown.\<close>

lemma fire_with_flags:
  "fire srv t tms (with_flags b r st) = with_flags b r (fire srv t tms st)"
proof (induction tms arbitrary: st)
  case Nil
  then show ?case by simp
next
  case (Cons a tms)
  obtain h tm where a: "a = (h, tm)" by (cases a)
  have "(clearTimeout h (with_flags b r st))\<lparr>now := v\<rparr> =
      with_flags b r ((clearTimeout h st)\<lparr>now := v\<rparr>)" for v
    by (simp add: clearTimeout_def with_flags_def)
  then show ?case
    using Cons.IH by (simp add: a)
qed

lemma advance_with_flags:
  "advance srv t (with_flags b r st) = with_flags b r (advance srv t st)"
  by (simp add: advance_def Let_def fire_with_flags)

text \<open>The snapshot.\<close>

lemma path_join_agent: "path_join V ''AGENT.md'' = V @ [''AGENT.md'']"
  by (simp add: path_join_def)

lemma outputFile_effect:
  assumes "outputFile d p c = Inr d'"
  shows "is_file (d' q) \<Longrightarrow> is_file (d q) \<or> q = p"
    and "d' q = Some Dir \<Longrightarrow> d q = Some Dir \<or> prefix q (dirname p)"
  using assms
  by (auto simp: outputFile_def ensureDir_def is_file_def
      split: sum.splits if_splits option.splits node.splits)

lemma clear_for_outputFile:
  assumes "clear_for d p" "p \<noteq> []" "\<not> trailing_slash p"
  shows "\<exists>d'. outputFile d p c = Inr d'"
  using assms outputFile_succeeds [of d p c] by (simp add: clear_for_def)

lemma below_dirname:
  assumes "prefix q (dirname p)" "p \<noteq> []" "\<not> trailing_slash p"
  shows "strict_prefix q p"
proof -
  from assms(3) have "dirname p = butlast p"
    by (rule dirname_plain)
  with assms(1) have "prefix q (butlast p)"
    by simp
  moreover have "strict_prefix (butlast p) p"
    using assms(2) by (metis append_butlast_last_id not_Cons_self2 prefixI self_append_conv
        strict_prefix_def)
  ultimately show ?thesis
    by (meson prefix_order.le_less_trans)
qed

lemma clear_for_kept:
  assumes out: "outputFile d p c = Inr d'"
    and clear: "clear_for d p'"
    and shape: "p' \<noteq> []" "\<not> trailing_slash p'" "p \<noteq> []" "\<not> trailing_slash p"
    and apart: "\<not> strict_prefix p p'" "\<not> strict_prefix p' p"
  shows "clear_for d' p'"
proof -
  have "\<not> is_file (d' q)" if q: "q \<in> set (prefixes (dirname p'))" for q
  proof
    assume "is_file (d' q)"
    then have "is_file (d q) \<or> q = p"
      by (rule outputFile_effect(1) [OF out])
    moreover from clear q have "\<not> is_file (d q)"
      by (auto simp: clear_for_def list_ex_iff)
    moreover from q have "strict_prefix q p'"
      using below_dirname [OF _ shape(1,2)] by (simp add: in_set_prefixes)
    ultimately show False
      using apart(1) by simp
  qed
  moreover have "d' p' \<noteq> Some Dir"
  proof
    assume "d' p' = Some Dir"
    then have "d p' = Some Dir \<or> prefix p' (dirname p)"
      by (rule outputFile_effect(2) [OF out])
    moreover from clear have "d p' \<noteq> Some Dir"
      by (simp add: clear_for_def)
    ultimately have "strict_prefix p' p"
      using below_dirname [OF _ shape(3,4)] by simp
    with apart(2) show False
      by simp
  qed
  ultimately show ?thesis
    by (auto simp: clear_for_def list_ex_iff)
qed

lemma download_frame:
  "download data st = (res, st1) \<Longrightarrow>
     VIEWS_DIR st1 = VIEWS_DIR st \<and> console st1 = console st \<and> requests st1 = requests st \<and>
     timers st1 = timers st \<and> next_handle st1 = next_handle st \<and>
     pendingUpdates st1 = pendingUpdates st \<and> inflight st1 = inflight st \<and>
     schedule st1 = schedule st \<and> isShuttingDown st1 = isShuttingDown st \<and>
     exit_code st1 = exit_code st \<and> removing st1 = removing st \<and> now st1 = now st \<and>
     unwatched st1 = unwatched st"
proof (induction data arbitrary: st)
  case Nil
  then show ?case by auto
next
  case (Cons r0 files)
  show ?case
  proof (cases "file_path r0 \<noteq> []")
    case False
    with Cons show ?thesis by simp
  next
    case True
    show ?thesis
    proof (cases "outputFile (disk st) (path_join (VIEWS_DIR st) (file_path r0)) (code r0)")
      case (Inl e)
      with True Cons.prems show ?thesis by auto
    next
      case (Inr d)
      with True Cons.prems have "download files
          (st\<lparr>disk := d, fileMap := (fileMap st)(replace_backslashes (file_path r0) \<mapsto> r0)\<rparr>) =
          (res, st1)"
        by simp
      from Cons.IH [OF this] show ?thesis by simp
    qed
  qed
qed

lemma download_succeeds:
  assumes "\<forall>r \<in> set data. target (VIEWS_DIR st) r \<noteq> [] \<and> \<not> trailing_slash (target (VIEWS_DIR st) r)"
    and "\<forall>r \<in> set data. clear_for (disk st) (target (VIEWS_DIR st) r)"
    and "\<forall>r \<in> set data. \<forall>r' \<in> set data.
           \<not> strict_prefix (target (VIEWS_DIR st) r) (target (VIEWS_DIR st) r')"
    and "clear_for (disk st) p" "p \<noteq> []" "\<not> trailing_slash p"
    and "\<forall>r \<in> set data. \<not> strict_prefix (target (VIEWS_DIR st) r) p \<and>
           \<not> strict_prefix p (target (VIEWS_DIR st) r)"
    and "\<forall>r \<in> set data. file_path r \<noteq> []"
  shows "\<exists>st1. download data st = (None, st1) \<and> clear_for (disk st1) p"
  using assms
proof (induction data arbitrary: st)
  case Nil
  then show ?case by simp
next
  case (Cons r0 files)
  let ?V = "VIEWS_DIR st"
  let ?p0 = "target ?V r0"
  from Cons.prems(1) have shape0: "?p0 \<noteq> []" "\<not> trailing_slash ?p0"
    by simp_all
  from Cons.prems(2) have "clear_for (disk st) ?p0"
    by simp
  from clear_for_outputFile [OF this shape0, of "code r0"]
  obtain d where out: "outputFile (disk st) ?p0 (code r0) = Inr d"
    by blast
  let ?st2 = "st\<lparr>disk := d, fileMap := (fileMap st)(key r0 \<mapsto> r0)\<rparr>"
  from Cons.prems(8) have ne: "file_path r0 \<noteq> []"
    by simp
  have step: "download (r0 # files) st = download files ?st2"
    using out ne by (simp add: target_def key_def)
  have kept: "clear_for d (target ?V r)" if "r \<in> set files" for r
  proof -
    from that Cons.prems(1,2) have "clear_for (disk st) (target ?V r)"
      "target ?V r \<noteq> []" "\<not> trailing_slash (target ?V r)"
      by simp_all
    moreover from that Cons.prems(3) have "\<not> strict_prefix ?p0 (target ?V r)"
      "\<not> strict_prefix (target ?V r) ?p0"
      by simp_all
    ultimately show ?thesis
      using clear_for_kept [OF out _ _ _ shape0] by blast
  qed
  have kept_p: "clear_for d p"
    using clear_for_kept [OF out Cons.prems(4,5,6) shape0] Cons.prems(7) by simp
  have "\<exists>st1. download files ?st2 = (None, st1) \<and> clear_for (disk st1) p"
  proof (rule Cons.IH)
    show "\<forall>r \<in> set files. target (VIEWS_DIR ?st2) r \<noteq> [] \<and>
        \<not> trailing_slash (target (VIEWS_DIR ?st2) r)"
      using Cons.prems(1) by simp
    show "\<forall>r \<in> set files. clear_for (disk ?st2) (target (VIEWS_DIR ?st2) r)"
      using kept by simp
    show "\<forall>r \<in> set files. \<forall>r' \<in> set files.
        \<not> strict_prefix (target (VIEWS_DIR ?st2) r) (target (VIEWS_DIR ?st2) r')"
      using Cons.prems(3) by simp
    show "clear_for (disk ?st2) p"
      using kept_p by simp
    show "p \<noteq> []" "\<not> trailing_slash p"
      by fact+
    show "\<forall>r \<in> set files. \<not> strict_prefix (target (VIEWS_DIR ?st2) r) p \<and>
        \<not> strict_prefix p (target (VIEWS_DIR ?st2) r)"
      using Cons.prems(7) by simp
    show "\<forall>r \<in> set files. file_path r \<noteq> []"
      using Cons.prems(8) by simp
  qed
  with step show ?case
    by simp
qed

lemma download_complete:
  assumes "download data st = (None, st1)"
    and "\<forall>r \<in> set data. file_path r \<noteq> []"
    and "distinct (map key data)"
    and "distinct (map (target (VIEWS_DIR st)) data)"
  shows "(\<forall>r \<in> set data. disk st1 (target (VIEWS_DIR st) r) = Some (File (code r)) \<and>
            fileMap st1 (key r) = Some r) \<and>
         (\<forall>k. k \<notin> key ` set data \<longrightarrow> fileMap st1 k = fileMap st k) \<and>
         (\<forall>q x. disk st q = Some (File x) \<and> q \<notin> target (VIEWS_DIR st) ` set data \<longrightarrow>
            disk st1 q = Some (File x))"
  using assms
proof (induction data arbitrary: st)
  case Nil
  then show ?case by simp
next
  case (Cons r0 files)
  let ?V = "VIEWS_DIR st"
  from Cons.prems(2) have ne: "file_path r0 \<noteq> []"
    by simp
  from Cons.prems(1) ne obtain d where
    out: "outputFile (disk st) (target ?V r0) (code r0) = Inr d"
    by (auto simp: target_def split: sum.splits)
  let ?st2 = "st\<lparr>disk := d, fileMap := (fileMap st)(key r0 \<mapsto> r0)\<rparr>"
  from Cons.prems(1) ne out have rest: "download files ?st2 = (None, st1)"
    by (simp add: target_def key_def)
  have V2: "VIEWS_DIR ?st2 = ?V"
    by simp
  from Cons.prems have pre: "\<forall>r \<in> set files. file_path r \<noteq> []" "distinct (map key files)"
    "distinct (map (target (VIEWS_DIR ?st2)) files)"
    by simp_all
  note IH = Cons.IH [OF rest pre, unfolded V2]
  from Cons.prems(3) have knew: "key r0 \<notin> key ` set files"
    by simp
  from Cons.prems(4) have tnew: "target ?V r0 \<notin> target ?V ` set files"
    by simp
  have written: "d (target ?V r0) = Some (File (code r0))"
    using out by (rule outputFile_written)
  have here: "disk st1 (target ?V r0) = Some (File (code r0))"
    using IH written tnew by simp
  have mapped: "fileMap st1 (key r0) = Some r0"
    using IH knew by simp
  have others: "disk st1 q = Some (File x)"
    if "disk st q = Some (File x)" "q \<notin> target ?V ` set (r0 # files)" for q x
  proof -
    from that have "d q = Some (File x)"
      using outputFile_other [OF out, of q x] by auto
    with that IH show ?thesis
      by simp
  qed
  from IH here mapped others show ?case
    by auto
qed

section \<open>Unknown paths (C5)\<close>

text \<open>
  C5, as the code has it. A \<open>change\<close> event for a path whose normalised relative
  path has no entry in \<open>fileMap\<close> sends no request, arms no timer and leaves
  \<open>pendingUpdates\<close>, \<open>fileMap\<close> and the disk as they were. The warning is
  printed unless the shutdown flag is set: the guard on \<open>isShuttingDown\<close> comes
  first and returns without a word.
\<close>

theorem scheduleUpdate_unknown_path:
  assumes "fileMap st (relativePath_of st filePath) = None"
  shows "requests (scheduleUpdate filePath st) = requests st \<and>
         timers (scheduleUpdate filePath st) = timers st \<and>
         pendingUpdates (scheduleUpdate filePath st) = pendingUpdates st \<and>
         fileMap (scheduleUpdate filePath st) = fileMap st \<and>
         disk (scheduleUpdate filePath st) = disk st \<and>
         console (scheduleUpdate filePath st) =
           (if isShuttingDown st then console st
            else console st @ [SkippingUpdate (relativePath_of st filePath)])"
  using assms by (simp add: scheduleUpdate_def)

text \<open>After the snapshot of the example, \<open>new.ejs\<close> is unknown; the event warns.\<close>

theorem scheduleUpdate_unknown_path_witness:
  "fileMap example_state (relativePath_of example_state [''ws'', ''new.ejs'']) = None \<and>
   requests (scheduleUpdate [''ws'', ''new.ejs''] example_state) = [GetAll] \<and>
   timers (scheduleUpdate [''ws'', ''new.ejs''] example_state) = [] \<and>
   console (scheduleUpdate [''ws'', ''new.ejs''] example_state) =
     [FetchingSource, Downloaded 1, SkippingUpdate ''new.ejs'']"
proof -
  have unknown:
    "fileMap example_state (relativePath_of example_state [''ws'', ''new.ejs'']) = None"
    by code_simp
  have before: "requests example_state = [GetAll]" "timers example_state = []"
    "console example_state = [FetchingSource, Downloaded 1]"
    "\<not> isShuttingDown example_state"
    "relativePath_of example_state [''ws'', ''new.ejs''] = ''new.ejs''"
    by code_simp+
  from scheduleUpdate_unknown_path [OF unknown] unknown before show ?thesis
    by simp
qed

text \<open>
  C5 as the spec states it fails once a signal has set the flag: the same event for
  the same unknown path prints nothing.
\<close>

theorem scheduleUpdate_unknown_path_silent_in_shutdown:
  "fileMap (handle example_remote Signal example_state)
     (relativePath_of (handle example_remote Signal example_state) [''ws'', ''new.ejs'']) = None \<and>
   console (handle example_remote Signal example_state) =
     [FetchingSource, Downloaded 1, ShuttingDown, CleaningUp] \<and>
   console (handle example_remote (Change [''ws'', ''new.ejs''])
              (handle example_remote Signal example_state)) =
     [FetchingSource, Downloaded 1, ShuttingDown, CleaningUp]"
  by code_simp

section \<open>Failed provisioning (C6)\<close>

text \<open>
  C6. When \<open>createSchema\<close> runs for a created file and the provisioning request
  fails, or the fetch of the canonical record after it fails, nothing is left at the
  path, \<open>fileMap\<close> is what it was, no timer is armed, and the requests sent are the
  one provisioning request and, if that succeeded, the one fetch: nothing is tried
  again.
\<close>

theorem createSchema_failure:
  assumes "\<not> isShuttingDown st"
    and "disk st filePath \<noteq> Some Dir"
    and "post_cli srv (requests st) (relativePath_of st filePath) = Inl e \<or>
         (post_cli srv (requests st) (relativePath_of st filePath) = Inr i \<and>
          get_one srv (requests st @ [PostCli (relativePath_of st filePath)]) i = Inl e)"
  shows "disk (createSchema srv filePath st) filePath = None \<and>
         fileMap (createSchema srv filePath st) = fileMap st \<and>
         timers (createSchema srv filePath st) = timers st \<and>
         requests (createSchema srv filePath st) =
           requests st @ PostCli (relativePath_of st filePath) #
             (case post_cli srv (requests st) (relativePath_of st filePath) of
                Inl e' \<Rightarrow> []
              | Inr i' \<Rightarrow> [GetOne i'])"
proof -
  have catch: "disk (createSchema_catch filePath s) filePath = None \<and>
      fileMap (createSchema_catch filePath s) = fileMap s \<and>
      timers (createSchema_catch filePath s) = timers s \<and>
      requests (createSchema_catch filePath s) = requests s"
    if "disk s filePath \<noteq> Some Dir" for s
    using that
    by (cases "disk s filePath"; cases "the (disk s filePath)")
       (auto simp: createSchema_catch_def unlink_def Let_def)
  from assms(3) show ?thesis
  proof
    assume "post_cli srv (requests st) (relativePath_of st filePath) = Inl e"
    with assms(1,2) catch [of "sent (PostCli (relativePath_of st filePath)) st"]
    show ?thesis
      by (simp add: createSchema_def Let_def)
  next
    assume "post_cli srv (requests st) (relativePath_of st filePath) = Inr i \<and>
          get_one srv (requests st @ [PostCli (relativePath_of st filePath)]) i = Inl e"
    with assms(1,2)
      catch [of "sent (GetOne i) (sent (PostCli (relativePath_of st filePath)) st)"]
    show ?thesis
      by (simp add: createSchema_def Let_def)
  qed
qed

text \<open>
  A file \<open>new.ejs\<close> appears in the example workspace while the server cannot be
  reached: the file is gone afterwards and only the provisioning request was sent.
\<close>

theorem createSchema_failure_witness:
  "\<not> isShuttingDown (handle offline_remote (UserWrites [''ws'', ''new.ejs''] ''x'') example_state) \<and>
   disk (handle offline_remote (UserWrites [''ws'', ''new.ejs''] ''x'') example_state)
     [''ws'', ''new.ejs''] = Some (File ''x'') \<and>
   disk (createSchema offline_remote [''ws'', ''new.ejs'']
           (handle offline_remote (UserWrites [''ws'', ''new.ejs''] ''x'') example_state))
     [''ws'', ''new.ejs''] = None \<and>
   fileMap (createSchema offline_remote [''ws'', ''new.ejs'']
           (handle offline_remote (UserWrites [''ws'', ''new.ejs''] ''x'') example_state)) =
     fileMap example_state \<and>
   requests (createSchema offline_remote [''ws'', ''new.ejs'']
           (handle offline_remote (UserWrites [''ws'', ''new.ejs''] ''x'') example_state)) =
     [GetAll, PostCli ''new.ejs'']"
proof -
  let ?s = "handle offline_remote (UserWrites [''ws'', ''new.ejs''] ''x'') example_state"
  have flag: "\<not> isShuttingDown ?s"
    by code_simp
  have there: "disk ?s [''ws'', ''new.ejs''] = Some (File ''x'')"
    by code_simp
  then have nodir: "disk ?s [''ws'', ''new.ejs''] \<noteq> Some Dir"
    by simp
  have rel: "relativePath_of ?s [''ws'', ''new.ejs''] = ''new.ejs''"
    by code_simp
  have fails: "post_cli offline_remote (requests ?s) (relativePath_of ?s [''ws'', ''new.ejs'']) =
      Inl TransportError"
    by (simp add: offline_remote_def)
  have before: "requests ?s = [GetAll]" "fileMap ?s = fileMap example_state"
    by code_simp (simp add: handle_def example_state_def main_def fetchFiles_def Let_def
        split: sum.splits prod.splits option.splits)
  from createSchema_failure [OF flag nodir disjI1 [OF fails]] flag there fails rel before
  show ?thesis
    by simp
qed

section \<open>The environment name (C10)\<close>

text \<open>
  C10, as the code has it. When the trimmed token has a third dash-separated segment
  and that segment is not empty, the environment name is that segment in lower case,
  whatever \<open>--env\<close> says. When the token has fewer than three segments, or its third
  segment is empty, the name is the value of \<open>--env\<close> in lower case, and
  \<open>production\<close> when that value is absent or empty.
\<close>

theorem ENV_choice:
  "(3 \<le> length (tokenParts tok) \<and> tokenParts tok ! 2 \<noteq> [] \<longrightarrow>
      ENV tok env = toLowerCase (tokenParts tok ! 2)) \<and>
   (length (tokenParts tok) < 3 \<or> tokenParts tok ! 2 = [] \<longrightarrow>
      ENV tok (Some (c # cs)) = toLowerCase (c # cs) \<and>
      ENV tok (Some []) = ''production'' \<and>
      ENV tok None = ''production'')"
proof -
  have low: "toLowerCase ''production'' = ''production''"
    by (simp add: toLowerCase_def lower_char_def)
  have third: "ENV tok env = toLowerCase (tokenParts tok ! 2)"
    if "3 \<le> length (tokenParts tok)" "tokenParts tok ! 2 \<noteq> []"
  proof -
    from that obtain x xs where "tokenParts tok ! 2 = x # xs"
      by (cases "tokenParts tok ! 2") auto
    with that show ?thesis
      by (simp add: ENV_def index_opt_def or_else_simps)
  qed
  have fallback: "index_opt (tokenParts tok) 2 = None \<or> index_opt (tokenParts tok) 2 = Some []"
    if "length (tokenParts tok) < 3 \<or> tokenParts tok ! 2 = []"
    using that by (auto simp: index_opt_def)
  have opt: "ENV tok (Some (c # cs)) = toLowerCase (c # cs) \<and>
      ENV tok (Some []) = ''production'' \<and> ENV tok None = ''production''"
    if "length (tokenParts tok) < 3 \<or> tokenParts tok ! 2 = []"
    using fallback [OF that] low
    by (auto simp: ENV_def or_else_simps)
  from third opt show ?thesis by blast
qed

text \<open>A token with a third segment, and a token with two segments.\<close>

theorem ENV_choice_witness:
  "ENV ''abc-123-DEV'' (Some ''localhost'') = ''dev'' \<and>
   ENV ''abc-123'' (Some ''LocalHost'') = ''localhost'' \<and>
   ENV ''abc-123'' None = ''production''"
  using ENV_choice [of "''abc-123-DEV''" "Some ''localhost''"]
    ENV_choice [of "''abc-123''" _ "CHR ''L''" "''ocalHost''"]
  by (simp add: tokenParts_def trim_def is_space_def toLowerCase_def lower_char_def)

text \<open>
  C10 as stated fails for a token with at least three segments whose third segment is
  empty: the empty string is falsy, so \<open>--env\<close> decides.
\<close>

theorem ENV_empty_third_segment:
  "tokenParts ''abc-123--x'' = [''abc'', ''123'', [], ''x''] \<and>
   ENV ''abc-123--x'' (Some ''development'') = ''development'' \<and>
   ENV ''abc-123--x'' (Some ''localhost'') = ''localhost''"
  by (simp add: ENV_def tokenParts_def trim_def is_space_def toLowerCase_def lower_char_def
      index_opt_def or_else_def)

section \<open>Teardown (C8)\<close>




section \<open>Timers pending at shutdown (C9)\<close>

text \<open>
  C9, as the code has it. Entering \<open>handleExit\<close> clears no timer, sends no request,
  writes no file and resumes no await: the pending timers are neither drained nor
  awaited. Take any one timer that is pending when the signal arrives and is due
  later than \<open>T\<close>, whatever other timers are pending; if the signal, the events
  after it and the end of the removal (resolved or rejected) all come no later than
  \<open>T\<close>, then the process exits with that timer still in the event loop, what
  arrives afterwards has no effect, and the whole run is what it would have been
  had the timer been cleared beforehand: nothing that is sent, written or logged
  comes from it. On the other hand neither the firing of the timers nor the
  resumption of an await looks at the shutdown flag: with the flag set they do what
  they do without it, and a timer that is due leaves the event loop and runs its
  callback.
\<close>

theorem pending_timers_lost_at_exit:
  "(\<not> isShuttingDown st \<and> exit_code st = None \<and>
      (h, tm) \<in> set (timers st) \<and> distinct (map fst (timers st)) \<and> T < due tm \<and>
      t0 \<le> T \<and> t1 \<le> T \<and> (\<forall>(t, e) \<in> set mid. t \<le> T \<and> \<not> removal_ends e) \<and>
      removal_ends ending \<longrightarrow>
        (h, tm) \<in> set (timers (run srv ((t0, Signal) # mid @ (t1, ending) # rest) st)) \<and>
        exit_code (run srv ((t0, Signal) # mid @ (t1, ending) # rest) st) = Some 0 \<and>
        run srv ((t0, Signal) # mid @ (t1, ending) # rest) st =
          run srv ((t0, Signal) # mid @ [(t1, ending)]) st \<and>
        run srv ((t0, Signal) # mid @ (t1, ending) # rest) (clearTimeout h st) =
          clearTimeout h (run srv ((t0, Signal) # mid @ (t1, ending) # rest) st)) \<and>
   timers (handleExit_enter st) = timers st \<and>
   requests (handleExit_enter st) = requests st \<and>
   disk (handleExit_enter st) = disk st \<and>
   inflight (handleExit_enter st) = inflight st \<and>
   advance srv t (st\<lparr>isShuttingDown := b, removing := r\<rparr>) =
     (advance srv t st)\<lparr>isShuttingDown := b, removing := r\<rparr> \<and>
   complete srv n (st\<lparr>isShuttingDown := b, removing := r\<rparr>) =
     (complete srv n st)\<lparr>isShuttingDown := b, removing := r\<rparr> \<and>
   ((h', tm') \<in> set (timers st) \<and> due tm' \<le> t \<and> exit_code st = None \<longrightarrow>
      (h', tm') \<notin> set (timers (advance srv t st)))"
proof -
  have enter: "timers (handleExit_enter st) = timers st \<and>
         requests (handleExit_enter st) = requests st \<and>
         disk (handleExit_enter st) = disk st \<and>
         inflight (handleExit_enter st) = inflight st"
    by (simp add: handleExit_enter_def)
  have flags: "advance srv t (st\<lparr>isShuttingDown := b, removing := r\<rparr>) =
     (advance srv t st)\<lparr>isShuttingDown := b, removing := r\<rparr> \<and>
   complete srv n (st\<lparr>isShuttingDown := b, removing := r\<rparr>) =
     (complete srv n st)\<lparr>isShuttingDown := b, removing := r\<rparr>"
    using advance_with_flags [of srv t b r st] complete_with_flags [of srv n b r st]
    by (simp add: with_flags_def)
  have fires: "(h', tm') \<notin> set (timers (advance srv t st))"
    if "(h', tm') \<in> set (timers st)" "due tm' \<le> t" "exit_code st = None"
    using that by (force simp: advance_timers)
  have lost: "(h, tm) \<in> set (timers (run srv ((t0, Signal) # mid @ (t1, ending) # rest) st)) \<and>
        exit_code (run srv ((t0, Signal) # mid @ (t1, ending) # rest) st) = Some 0 \<and>
        run srv ((t0, Signal) # mid @ (t1, ending) # rest) st =
          run srv ((t0, Signal) # mid @ [(t1, ending)]) st \<and>
        run srv ((t0, Signal) # mid @ (t1, ending) # rest) (clearTimeout h st) =
          clearTimeout h (run srv ((t0, Signal) # mid @ (t1, ending) # rest) st)"
    if live: "\<not> isShuttingDown st" "exit_code st = None"
      and pending: "(h, tm) \<in> set (timers st)" "distinct (map fst (timers st))" "T < due tm"
      and times: "t0 \<le> T" "t1 \<le> T" "\<forall>(t, e) \<in> set mid. t \<le> T \<and> \<not> removal_ends e"
      and ending: "removal_ends ending"
  proof -
    let ?V = "VIEWS_DIR st"
    define a where "a = advance srv t0 st"
    define s where "s = handleExit_enter a"
    define m where "m = run srv mid s"
    define c where "c = advance srv t1 m"
    define z where "z = handle srv ending c"
    have only: "\<forall>(h', tm') \<in> set (timers st). h' = h \<longrightarrow> T < due tm'"
    proof (clarify)
      fix tm'
      assume "(h, tm') \<in> set (timers st)"
      with pending(1,2) have "tm' = tm"
        by (meson eq_key_imp_eq_value)
      with pending(3) show "T < due tm'" by simp
    qed
    have fa: "exit_code a = None" "\<not> isShuttingDown a" "VIEWS_DIR a = ?V"
      using advance_frame [of srv t0 st] live by (simp_all add: a_def)
    have ta: "(h, tm) \<in> set (timers a)" "distinct (map fst (timers a))"
      using pending times(1) by (simp_all add: a_def timer_stays advance_distinct)
    have cs: "closing ?V s"
      using enter_closing [of a] fa by (simp add: s_def)
    have ts: "(h, tm) \<in> set (timers s)" "distinct (map fst (timers s))"
      using ta by (simp_all add: s_def handleExit_enter_def)
    have quiet: "\<forall>(t, e) \<in> set mid. \<not> removal_ends e"
      using times(3) by auto
    have cm: "closing ?V m"
      unfolding m_def using cs quiet by (rule run_closing)
    have tm: "(h, tm) \<in> set (timers m)" "distinct (map fst (timers m))"
      using run_closing_timer [OF cs ts pending(3) times(3), of srv] by (simp_all add: m_def)
    have cc: "closing ?V c"
      unfolding c_def using cm by (rule advance_closing)
    have tc: "(h, tm) \<in> set (timers c)"
      using tm pending(3) times(2) by (simp add: c_def timer_stays)
    from ending obtain outcome where z_eq: "z = handleExit_resume outcome c"
      using cc by (cases ending) (auto simp: z_def handle_def removal_ends_def closing_def)
    have ez: "exit_code z = Some 0" and tz: "(h, tm) \<in> set (timers z)"
      using resume_closing(1,5) [OF cc, of outcome] tc by (simp_all add: z_eq)
    have whole: "run srv ((t0, Signal) # mid @ (t1, ending) # rest) st = run srv rest z"
      using fa by (simp add: run_append handle_def z_def c_def m_def s_def a_def)
    have short: "run srv ((t0, Signal) # mid @ [(t1, ending)]) st = z"
      using fa by (simp add: run_append handle_def z_def c_def m_def s_def a_def)
    have final: "run srv ((t0, Signal) # mid @ (t1, ending) # rest) st = z"
      using whole ez by (simp add: run_exited)
    have first: "\<forall>(h', tm') \<in> set (timers st). h' = h \<longrightarrow> t0 < due tm'"
      using only times(1) by fastforce
    have a': "advance srv t0 (clearTimeout h st) = clearTimeout h a"
      using advance_without [OF first, of srv] by (simp add: a_def)
    have fa': "exit_code (clearTimeout h a) = None"
      using fa by (simp add: clearTimeout_def)
    have s': "handle srv Signal (clearTimeout h a) = clearTimeout h s"
      using fa' by (simp add: handle_def s_def handleExit_enter_without)
    have flag_s: "isShuttingDown s"
      using cs by (simp add: closing_def)
    have only_s: "\<forall>(h', tm') \<in> set (timers s). h' = h \<longrightarrow> T < due tm'"
      using only advance_subset [of srv t0 st] by (auto simp: s_def handleExit_enter_def a_def)
    have all: "\<forall>(t, e) \<in> set (mid @ [(t1, ending)]). t \<le> T"
      using times(2,3) by auto
    have "run srv ((t0, Signal) # mid @ [(t1, ending)]) (clearTimeout h st) =
        run srv (mid @ [(t1, ending)]) (clearTimeout h s)"
      by (simp add: a' s')
    also have "\<dots> = clearTimeout h (run srv (mid @ [(t1, ending)]) s)"
      using flag_s only_s all by (rule run_without)
    also have "run srv (mid @ [(t1, ending)]) s = z"
      by (simp add: run_append z_def c_def m_def)
    finally have short': "run srv ((t0, Signal) # mid @ [(t1, ending)]) (clearTimeout h st) =
        clearTimeout h z" .
    have "run srv ((t0, Signal) # mid @ (t1, ending) # rest) (clearTimeout h st) =
        run srv rest (run srv ((t0, Signal) # mid @ [(t1, ending)]) (clearTimeout h st))"
      using run_append [of srv "(t0, Signal) # mid @ [(t1, ending)]" rest "clearTimeout h st"]
      by simp
    also have "\<dots> = clearTimeout h z"
    proof -
      have "exit_code (clearTimeout h z) \<noteq> None"
        using ez by (simp add: clearTimeout_def)
      then have "run srv rest (clearTimeout h z) = clearTimeout h z"
        by (rule run_exited)
      then show ?thesis
        by (simp only: short')
    qed
    finally have without: "run srv ((t0, Signal) # mid @ (t1, ending) # rest) (clearTimeout h st) =
        clearTimeout h z" .
    show ?thesis
      unfolding final short without using ez tz by simp
  qed
  from enter flags fires lost show ?thesis
    by blast
qed

text \<open>
  In the example two timers are pending, due at 2000 and at 2900. The signal comes
  at 1995 and the removal resolves at 2005: the timer due at 2900 is still in the
  event loop when the process exits, while the one due at 2000 has fired and pushed.
\<close>

theorem pending_timers_lost_at_exit_witness:
  "(1, late_timer) \<in> set (timers example_pair) \<and>
   (1, late_timer) \<in> set (timers (run pair_remote
      ((1995, Signal) # [] @ (2005, RemoveResolved) # [(5000, Change example_path)])
      example_pair)) \<and>
   exit_code (run pair_remote
      ((1995, Signal) # [] @ (2005, RemoveResolved) # [(5000, Change example_path)])
      example_pair) = Some 0 \<and>
   requests (run pair_remote
      ((1995, Signal) # [] @ (2005, RemoveResolved) # [(5000, Change example_path)])
      example_pair) = [GetAll, Patch 1 ''B'' ''u0'']"
proof -
  have pending: "timers example_pair = [(0, example_timer), (1, late_timer)]"
    by code_simp
  have live: "\<not> isShuttingDown example_pair" "exit_code example_pair = None"
    by code_simp+
  have due: "due late_timer = 2900"
    by (simp add: late_timer_def)
  have sent: "requests (run pair_remote
      ((1995, Signal) # [] @ (2005, RemoveResolved) # [(5000, Change example_path)])
      example_pair) = [GetAll, Patch 1 ''B'' ''u0'']"
    by code_simp
  have A: "(1, late_timer) \<in> set (timers example_pair)"
    and B: "distinct (map fst (timers example_pair))"
    by (simp_all add: pending)
  have C: "\<forall>(t, e) \<in> set []. t \<le> (2005::nat) \<and> \<not> removal_ends e"
    and D: "removal_ends RemoveResolved" and E: "(2005::nat) < due late_timer"
    and F: "(1995::nat) \<le> 2005" "(2005::nat) \<le> 2005"
    by (simp_all add: removal_ends_def due)
  from pending_timers_lost_at_exit [where st = example_pair and T = 2005 and h = 1
      and tm = late_timer and ?t0.0 = 1995 and ?t1.0 = 2005 and mid = "[]"
      and ending = RemoveResolved and srv = pair_remote
      and rest = "[(5000, Change example_path)]"]
    live A B C D E F
  have "(1, late_timer) \<in> set (timers (run pair_remote
      ((1995, Signal) # [] @ (2005, RemoveResolved) # [(5000, Change example_path)])
      example_pair)) \<and>
   exit_code (run pair_remote
      ((1995, Signal) # [] @ (2005, RemoveResolved) # [(5000, Change example_path)])
      example_pair) = Some 0"
    by blast
  with A sent show ?thesis
    by blast
qed

text \<open>
  C9 as the spec states it fails when the removal is still in progress at the due
  time: the callback has no guard on the flag, so the timer that was pending at the
  signal fires and pushes.
\<close>

theorem timer_fires_during_removal:
  "timers (run example_remote [(1995, Signal)] example_edited) =
     [(0, \<lparr>due = 2000, t_filePath = example_path, t_relativePath = ''a.ejs'',
           t_file = example_record\<rparr>)] \<and>
   requests (run example_remote [(1995, Signal)] example_edited) = [GetAll] \<and>
   requests (run example_remote [(1995, Signal), (2005, RemoveResolved)] example_edited) =
     [GetAll, Patch 1 ''B'' ''u0'']"
  by code_simp

section \<open>No-op suppression (C3)\<close>

text \<open>
  C3, as the code has it. The timer that \<open>scheduleUpdate\<close> arms for a known path
  holds the record that \<open>fileMap\<close> had for the path at that moment. When a timer
  fires and the content read from the disk equals the content of the record it
  holds, the callback only deletes the entry of \<open>pendingUpdates\<close>: no request, no
  log line, no change to the disk or to \<open>fileMap\<close>.
\<close>

theorem pushUpdate_unchanged_content:
  "(\<not> isShuttingDown st \<and> fileMap st (relativePath_of st filePath) = Some file \<and> id_of file \<noteq> 0 \<longrightarrow>
      timers (scheduleUpdate filePath st) =
         filter (\<lambda>(h', t'). Some h' \<noteq> pendingUpdates st (id_of file)) (timers st) @
           [(next_handle st, \<lparr>due = now st + DEBOUNCE_DELAY, t_filePath = filePath,
                 t_relativePath = relativePath_of st filePath, t_file = file\<rparr>)]) \<and>
   (readFile (disk s) (t_filePath t) = Inr (code (t_file t)) \<longrightarrow>
      pushUpdate srv t s = delete_pending (id_of (t_file t)) s \<and>
      requests (pushUpdate srv t s) = requests s \<and>
      console (pushUpdate srv t s) = console s \<and>
      disk (pushUpdate srv t s) = disk s \<and>
      fileMap (pushUpdate srv t s) = fileMap s \<and>
      pendingUpdates (pushUpdate srv t s) (id_of (t_file t)) = None)"
proof -
  have arm: "timers (scheduleUpdate filePath st) =
         filter (\<lambda>(h', t'). Some h' \<noteq> pendingUpdates st (id_of file)) (timers st) @
           [(next_handle st, \<lparr>due = now st + DEBOUNCE_DELAY, t_filePath = filePath,
                 t_relativePath = relativePath_of st filePath, t_file = file\<rparr>)]"
    if "\<not> isShuttingDown st" "fileMap st (relativePath_of st filePath) = Some file"
      "id_of file \<noteq> 0"
    using that
    by (cases "pendingUpdates st (id_of file)")
       (simp_all add: scheduleUpdate_def Let_def setTimeout_def)
  have fire: "pushUpdate srv t s = delete_pending (id_of (t_file t)) s"
    if "readFile (disk s) (t_filePath t) = Inr (code (t_file t))"
    using that by (simp add: pushUpdate_def Let_def)
  from arm fire show ?thesis
    by simp
qed

text \<open>
  The example right after the snapshot: a modified event for \<open>a.ejs\<close> arms the
  timer with the snapshot's record, and the file still holds that record's content.
\<close>

theorem pushUpdate_unchanged_content_witness:
  "timers (scheduleUpdate example_path example_state) = [(0, example_timer\<lparr>due := 1000\<rparr>)] \<and>
   readFile (disk example_state) (t_filePath example_timer) = Inr (code (t_file example_timer)) \<and>
   requests (pushUpdate example_remote example_timer example_state) = [GetAll] \<and>
   console (pushUpdate example_remote example_timer example_state) = console example_state \<and>
   pendingUpdates (pushUpdate example_remote example_timer example_state) 1 = None"
proof -
  have same: "readFile (disk example_state) (t_filePath example_timer) =
      Inr (code (t_file example_timer))"
    by code_simp
  have known: "\<not> isShuttingDown example_state"
    "fileMap example_state (relativePath_of example_state example_path) = Some example_record"
    "id_of example_record \<noteq> 0" "id_of (t_file example_timer) = 1"
    "requests example_state = [GetAll]" "timers example_state = []" "now example_state = 0"
    "relativePath_of example_state example_path = ''a.ejs''"
    "next_handle example_state = 0"
    by code_simp+
  from pushUpdate_unchanged_content [where st = example_state and filePath = example_path
      and ?file = example_record and s = example_state and t = example_timer
      and srv = example_remote]
    same known
  show ?thesis
    by (simp add: example_timer_def DEBOUNCE_DELAY_def)
qed

text \<open>
  C3 as the spec states it compares with \<open>fileMap\<close> at the time the timer fires. In
  the example the file is saved with content \<open>B\<close> (the timer holds the record with
  content \<open>A\<close>), then a created event for the same path stores a record with
  content \<open>B\<close>. When the timer fires, disk and \<open>fileMap\<close> agree, and the push is
  made all the same.
\<close>

theorem push_despite_equal_content:
  "timers (run reprovision_remote [(1100, Add example_path)] example_edited) =
     [(0, example_timer)] \<and>
   fileMap (run reprovision_remote [(1100, Add example_path)] example_edited) ''a.ejs'' =
     Some \<lparr>id_of = 7, file_path = ''a.ejs'', code = ''B'', updated_at = ''u1''\<rparr> \<and>
   readFile (disk (run reprovision_remote [(1100, Add example_path)] example_edited))
     example_path = Inr ''B'' \<and>
   requests (run reprovision_remote [(1100, Add example_path)] example_edited) =
     [GetAll, PostCli ''a.ejs'', GetOne 7] \<and>
   requests (advance reprovision_remote 2000
      (run reprovision_remote [(1100, Add example_path)] example_edited)) =
     [GetAll, PostCli ''a.ejs'', GetOne 7, Patch 1 ''B'' ''u0'']"
  by code_simp

section \<open>Conflict resolution (C4)\<close>

text \<open>
  C4, as the code has it. When the push of a timer fails, the failure is logged and
  one fetch follows, by the id that \<open>fileMap\<close> has for the path at that moment;
  the push is not repeated and no timer is armed. If the fetch succeeds and the file
  can be written, the file holds exactly the fetched content, \<open>fileMap\<close> has the
  fetched record for the path, and the refresh is logged. If the fetch fails as
  well, that error is logged too and disk and \<open>fileMap\<close> stay as they were: the
  local edit remains in the file.
\<close>

theorem failed_push_refreshes:
  assumes "readFile (disk st) (t_filePath t) = Inr content"
    and "content \<noteq> code (t_file t)"
    and "body = (if content = [] then ''foo bar'' else content)"
    and "patch srv (requests st) (id_of (t_file t)) body (updated_at (t_file t)) = Inl e"
    and "fileMap st (relativePath_of st (t_filePath t)) = Some known"
  shows "requests (pushUpdate srv t st) =
           requests st @ [Patch (id_of (t_file t)) body (updated_at (t_file t)),
                          GetOne (id_of known)] \<and>
         timers (pushUpdate srv t st) = timers st \<and>
         (get_one srv (requests st @ [Patch (id_of (t_file t)) body (updated_at (t_file t))])
             (id_of known) = Inr fetched \<and>
          outputFile (disk st) (t_filePath t) (code fetched) = Inr d \<longrightarrow>
            disk (pushUpdate srv t st) = d \<and>
            disk (pushUpdate srv t st) (t_filePath t) = Some (File (code fetched)) \<and>
            fileMap (pushUpdate srv t st) =
              (fileMap st)(relativePath_of st (t_filePath t) \<mapsto> fetched) \<and>
            console (pushUpdate srv t st) =
              console st @ [ErrorUpdating, Refreshed (relativePath_of st (t_filePath t))]) \<and>
         (get_one srv (requests st @ [Patch (id_of (t_file t)) body (updated_at (t_file t))])
             (id_of known) = Inl e' \<longrightarrow>
            disk (pushUpdate srv t st) = disk st \<and>
            fileMap (pushUpdate srv t st) = fileMap st \<and>
            console (pushUpdate srv t st) = console st @ [ErrorUpdating, ErrorRefreshing])"
proof -
  let ?p = "Patch (id_of (t_file t)) body (updated_at (t_file t))"
  let ?s = "say ErrorUpdating (sent ?p st)"
  have step: "pushUpdate srv t st = refreshFile srv (t_filePath t) ?s"
    using assms(1-4) by (simp add: pushUpdate_def Let_def)
  have s: "requests ?s = requests st @ [?p]" "fileMap ?s = fileMap st" "disk ?s = disk st"
    "console ?s = console st @ [ErrorUpdating]"
    "relativePath_of ?s (t_filePath t) = relativePath_of st (t_filePath t)"
    by simp_all
  show ?thesis
    unfolding step
    using assms(5) outputFile_written [of "disk st" "t_filePath t" "code fetched" d]
    by (cases "get_one srv (requests st @ [?p]) (id_of known)")
       (auto simp: refreshFile_def Let_def s split: sum.splits)
qed

text \<open>The example with a server that rejects the push and serves the record.\<close>

theorem failed_push_refreshes_witness:
  "readFile (disk example_edited) (t_filePath example_timer) = Inr ''B'' \<and>
   ''B'' \<noteq> code (t_file example_timer) \<and>
   requests (pushUpdate rejecting_remote example_timer example_edited) =
     [GetAll, Patch 1 ''B'' ''u0'', GetOne 1] \<and>
   disk (pushUpdate rejecting_remote example_timer example_edited) example_path =
     Some (File ''A2'') \<and>
   fileMap (pushUpdate rejecting_remote example_timer example_edited) ''a.ejs'' =
     Some \<lparr>id_of = 1, file_path = ''a.ejs'', code = ''A2'', updated_at = ''u2''\<rparr> \<and>
   console (pushUpdate rejecting_remote example_timer example_edited) =
     [FetchingSource, Downloaded 1, ErrorUpdating, Refreshed ''a.ejs'']"
proof -
  have read: "readFile (disk example_edited) (t_filePath example_timer) = Inr ''B''"
    by code_simp
  have changed: "''B'' \<noteq> code (t_file example_timer)"
    by code_simp
  have body: "''B'' = (if ''B'' = [] then ''foo bar'' else ''B'')"
    by simp
  have fails: "patch rejecting_remote (requests example_edited) (id_of (t_file example_timer))
      ''B'' (updated_at (t_file example_timer)) = Inl TransportError"
    by (simp add: rejecting_remote_def)
  have known: "fileMap example_edited (relativePath_of example_edited (t_filePath example_timer))
      = Some example_record"
    by code_simp
  have fetch: "get_one rejecting_remote
      (requests example_edited @
         [Patch (id_of (t_file example_timer)) ''B'' (updated_at (t_file example_timer))])
      (id_of example_record) =
      Inr \<lparr>id_of = 1, file_path = ''a.ejs'', code = ''A2'', updated_at = ''u2''\<rparr>"
    by (simp add: rejecting_remote_def example_record_def)
  have "\<not> list_ex (\<lambda>q. is_file (disk example_edited q))
      (prefixes (dirname (t_filePath example_timer)))"
    "disk example_edited (t_filePath example_timer) \<noteq> Some Dir"
    "t_filePath example_timer \<noteq> []"
    "\<not> trailing_slash (t_filePath example_timer)"
    by code_simp+
  then obtain d where written: "outputFile (disk example_edited) (t_filePath example_timer)
      (code \<lparr>id_of = 1, file_path = ''a.ejs'', code = ''A2'', updated_at = ''u2''\<rparr>) = Inr d"
    using outputFile_succeeds by blast
  have vals: "requests example_edited = [GetAll]" "id_of (t_file example_timer) = 1"
    "updated_at (t_file example_timer) = ''u0''" "id_of example_record = 1"
    "t_filePath example_timer = example_path"
    "relativePath_of example_edited example_path = ''a.ejs''"
    "console example_edited = [FetchingSource, Downloaded 1]"
    by code_simp+
  from failed_push_refreshes [OF read changed body fails known,
      where fetched = "\<lparr>id_of = 1, file_path = ''a.ejs'', code = ''A2'', updated_at = ''u2''\<rparr>"
      and d = d]
    read changed fetch written vals
  show ?thesis
    by auto
qed

text \<open>
  C4 as the spec states it fails when the server cannot be reached at all: push and
  fetch both fail, and the file keeps the local edit \<open>B\<close> while \<open>fileMap\<close> keeps
  the record with content \<open>A\<close>.
\<close>

theorem failed_push_and_failed_fetch:
  "timers example_edited = [(0, example_timer)] \<and>
   requests (advance offline_remote 2000 example_edited) =
     [GetAll, Patch 1 ''B'' ''u0'', GetOne 1] \<and>
   disk (advance offline_remote 2000 example_edited) example_path = Some (File ''B'') \<and>
   fileMap (advance offline_remote 2000 example_edited) ''a.ejs'' = Some example_record \<and>
   code example_record = ''A''"
  by code_simp

section \<open>Provision, then rename (C2)\<close>




section \<open>Snapshot completeness (C7)\<close>

text \<open>
  C7, as the code has it. The session starts with a listing in which every record
  declares a non-empty path; the normalised paths are pairwise distinct; every path
  resolves to a location strictly inside the workspace and does not end in a slash;
  the locations are pairwise distinct, none lies below another, and none is at or
  below \<open>AGENT.md\<close>; and on the disk at the start a regular file can be written at
  each of these locations and at \<open>AGENT.md\<close> (no regular file is in the way of
  the directories, no directory is at the location). Then the snapshot logs no
  error; every record's file is at its location, inside the workspace, with the
  record's code as content; \<open>fileMap\<close> maps each normalised path to its record, its
  keys are exactly the normalised paths, so it has as many entries as the listing
  has records; and \<open>AGENT.md\<close> holds the reference document.
\<close>

theorem snapshot_complete:
  assumes "get_all srv [] = Inr data"
    and "\<forall>r \<in> set data. file_path r \<noteq> []"
    and "distinct (map (\<lambda>r. replace_backslashes (file_path r)) data)"
    and "\<forall>r \<in> set data. strict_prefix V (path_join V (file_path r)) \<and>
           \<not> trailing_slash (path_join V (file_path r))"
    and "distinct (map (\<lambda>r. path_join V (file_path r)) data)"
    and "\<forall>r \<in> set data. \<forall>r' \<in> set data.
           \<not> strict_prefix (path_join V (file_path r)) (path_join V (file_path r'))"
    and "\<forall>r \<in> set data. \<not> prefix (path_join V ''AGENT.md'') (path_join V (file_path r))"
    and "\<forall>r \<in> set data. clear_for d0 (path_join V (file_path r))"
    and "clear_for d0 (path_join V ''AGENT.md'')"
  shows "(\<forall>r \<in> set data.
            disk (main srv agentMdContent V d0) (path_join V (file_path r)) = Some (File (code r)) \<and>
            fileMap (main srv agentMdContent V d0) (replace_backslashes (file_path r)) = Some r) \<and>
         dom (fileMap (main srv agentMdContent V d0)) =
           (\<lambda>r. replace_backslashes (file_path r)) ` set data \<and>
         card (dom (fileMap (main srv agentMdContent V d0))) = length data \<and>
         disk (main srv agentMdContent V d0) (path_join V ''AGENT.md'') =
           Some (File agentMdContent) \<and>
         console (main srv agentMdContent V d0) = [FetchingSource, Downloaded (length data)]"
proof -
  let ?st = "initial V d0"
  let ?agent = "path_join V ''AGENT.md''"
  have init: "requests ?st = []" "VIEWS_DIR ?st = V" "fileMap ?st = Map.empty"
    "console ?st = []" "disk ?st = d0"
    by (simp_all add: initial_def)
  have agent: "?agent = V @ [''AGENT.md'']"
    by (rule path_join_agent)
  then have agent_shape: "?agent \<noteq> []" "\<not> trailing_slash ?agent" "dirname ?agent = V"
    by (simp_all add: trailing_slash_def dirname_def without_slash_def)
  from assms(9) agent_shape have way: "\<not> list_ex (\<lambda>q. is_file (d0 q)) (prefixes V)"
    by (simp add: clear_for_def)
  define d where "d = (\<lambda>q. if prefix q V \<and> d0 q = None then Some Dir else d0 q)"
  have dir: "ensureDir d0 V = Inr d"
    using way by (simp add: ensureDir_def d_def)
  have same_files: "is_file (d q) = is_file (d0 q)" for q
    by (simp add: d_def is_file_def)
  have clear_d: "clear_for d p" if "clear_for d0 p" "\<not> prefix p V" for p
  proof -
    from that(2) have "d p = d0 p"
      by (simp add: d_def)
    with that(1) show ?thesis
      by (simp add: clear_for_def same_files)
  qed
  let ?s0 = "(sent GetAll (say FetchingSource ?st))\<lparr>disk := d\<rparr>"
  have s0: "VIEWS_DIR ?s0 = V" "fileMap ?s0 = Map.empty" "disk ?s0 = d"
    "console ?s0 = [FetchingSource]"
    by (simp_all add: init say_def sent_def)
  have inside: "\<not> prefix (target V r) V" "target V r \<noteq> []" "\<not> trailing_slash (target V r)"
    if "r \<in> set data" for r
    using assms(4) that by (auto simp: target_def)
  have "\<exists>st1. download data ?s0 = (None, st1) \<and> clear_for (disk st1) ?agent"
  proof (rule download_succeeds)
    show "\<forall>r \<in> set data. target (VIEWS_DIR ?s0) r \<noteq> [] \<and>
        \<not> trailing_slash (target (VIEWS_DIR ?s0) r)"
      using inside by (simp add: s0)
    show "\<forall>r \<in> set data. clear_for (disk ?s0) (target (VIEWS_DIR ?s0) r)"
      using assms(8) inside clear_d by (simp add: s0 target_def)
    show "\<forall>r \<in> set data. \<forall>r' \<in> set data.
        \<not> strict_prefix (target (VIEWS_DIR ?s0) r) (target (VIEWS_DIR ?s0) r')"
      using assms(6) by (simp add: s0 target_def)
    show "clear_for (disk ?s0) ?agent"
      using assms(9) clear_d [of ?agent] by (simp add: s0 agent)
    show "?agent \<noteq> []" "\<not> trailing_slash ?agent"
      by (rule agent_shape)+
    show "\<forall>r \<in> set data. \<not> strict_prefix (target (VIEWS_DIR ?s0) r) ?agent \<and>
        \<not> strict_prefix ?agent (target (VIEWS_DIR ?s0) r)"
    proof
      fix r
      assume r: "r \<in> set data"
      with assms(4) have "strict_prefix V (target V r)"
        by (simp add: target_def)
      then have "\<not> strict_prefix (target V r) (V @ [''AGENT.md''])"
        by (metis prefix_snoc prefix_order.less_le prefix_order.less_le_not_le)
      moreover from assms(7) r have "\<not> strict_prefix ?agent (target V r)"
        by (auto simp: target_def)
      ultimately show "\<not> strict_prefix (target (VIEWS_DIR ?s0) r) ?agent \<and>
          \<not> strict_prefix ?agent (target (VIEWS_DIR ?s0) r)"
        by (simp add: s0 agent)
    qed
    show "\<forall>r \<in> set data. file_path r \<noteq> []"
      by (rule assms(2))
  qed
  then obtain st1 where dl: "download data ?s0 = (None, st1)"
    and agent_clear: "clear_for (disk st1) ?agent"
    by blast
  from clear_for_outputFile [OF agent_clear agent_shape(1,2), of agentMdContent]
  obtain d' where written: "outputFile (disk st1) ?agent agentMdContent = Inr d'"
    by blast
  note fr = download_frame [OF dl]
  have V1: "VIEWS_DIR st1 = V" and c1: "console st1 = [FetchingSource]"
    using fr by (simp_all add: s0)
  have final: "main srv agentMdContent V d0 = (say (Downloaded (length data)) st1)\<lparr>disk := d'\<rparr>"
    using assms(1) dir dl written V1
    by (simp add: main_def fetchFiles_def Let_def init say_def sent_def)
  have keys: "distinct (map key data)"
    using assms(3) by (simp add: key_def [abs_def])
  have targets: "distinct (map (target (VIEWS_DIR ?s0)) data)"
    using assms(5) by (simp add: target_def [abs_def] init)
  note dc = download_complete [OF dl assms(2) keys targets, unfolded s0]
  have files: "disk (main srv agentMdContent V d0) (path_join V (file_path r)) = Some (File (code r))"
    if "r \<in> set data" for r
  proof -
    from dc that have "disk st1 (target V r) = Some (File (code r))"
      by simp
    moreover from assms(7) that have "target V r \<noteq> ?agent"
      by (auto simp: target_def)
    ultimately show ?thesis
      using outputFile_other [OF written] final by (simp add: target_def)
  qed
  have fm: "fileMap (main srv agentMdContent V d0) = fileMap st1"
    using final by simp
  have entries: "fileMap st1 (key r) = Some r" if "r \<in> set data" for r
    using dc that by simp
  have outside: "fileMap st1 k = None" if "k \<notin> key ` set data" for k
    using dc that by simp
  have dom_eq: "dom (fileMap st1) = key ` set data"
  proof
    show "dom (fileMap st1) \<subseteq> key ` set data"
      using outside by (fastforce simp: dom_def)
    show "key ` set data \<subseteq> dom (fileMap st1)"
      using entries by (auto simp: dom_def)
  qed
  have "card (key ` set data) = length data"
    using keys by (metis distinct_card length_map set_map)
  moreover have "disk (main srv agentMdContent V d0) ?agent = Some (File agentMdContent)"
    using outputFile_written [OF written] final by simp
  moreover have "console (main srv agentMdContent V d0) =
      [FetchingSource, Downloaded (length data)]"
    using final c1 by (simp add: say_def)
  ultimately show ?thesis
    using files entries dom_eq fm by (simp add: key_def [abs_def] key_def)
qed

text \<open>A listing of two records in two directories, on an empty disk.\<close>

theorem snapshot_complete_witness:
  "disk (main (serving example_listing) ''guide'' [''ws''] Map.empty)
     [''ws'', ''views'', ''pages'', ''home.ejs''] = Some (File ''H'') \<and>
   disk (main (serving example_listing) ''guide'' [''ws''] Map.empty)
     [''ws'', ''css'', ''site.css''] = Some (File ''S'') \<and>
   fileMap (main (serving example_listing) ''guide'' [''ws''] Map.empty) ''views/pages/home.ejs'' =
     Some \<lparr>id_of = 1, file_path = ''views/pages/home.ejs'', code = ''H'', updated_at = ''u''\<rparr> \<and>
   fileMap (main (serving example_listing) ''guide'' [''ws''] Map.empty) ''css/site.css'' =
     Some \<lparr>id_of = 2, file_path = ''css/site.css'', code = ''S'', updated_at = ''u''\<rparr> \<and>
   card (dom (fileMap (main (serving example_listing) ''guide'' [''ws''] Map.empty))) = 2 \<and>
   disk (main (serving example_listing) ''guide'' [''ws''] Map.empty) [''ws'', ''AGENT.md''] =
     Some (File ''guide'') \<and>
   console (main (serving example_listing) ''guide'' [''ws''] Map.empty) =
     [FetchingSource, Downloaded 2]"
proof -
  have listing: "get_all (serving example_listing) [] = Inr example_listing"
    by (simp add: serving_def)
  have declared: "\<forall>r \<in> set example_listing. file_path r \<noteq> []"
    by (simp add: example_listing_def)
  have keys: "distinct (map (\<lambda>r. replace_backslashes (file_path r)) example_listing)"
    by (simp add: example_listing_def replace_backslashes_def)
  have places: "map (\<lambda>r. path_join [''ws''] (file_path r)) example_listing =
      [[''ws'', ''views'', ''pages'', ''home.ejs''], [''ws'', ''css'', ''site.css'']]"
    "path_join [''ws''] ''AGENT.md'' = [''ws'', ''AGENT.md'']"
    by code_simp+
  have inside: "\<forall>r \<in> set example_listing. strict_prefix [''ws''] (path_join [''ws''] (file_path r)) \<and>
           \<not> trailing_slash (path_join [''ws''] (file_path r))"
    using places by (simp add: example_listing_def trailing_slash_def)
  have apart: "distinct (map (\<lambda>r. path_join [''ws''] (file_path r)) example_listing)"
    by (simp add: places)
  have free: "\<forall>r \<in> set example_listing. \<forall>r' \<in> set example_listing.
           \<not> strict_prefix (path_join [''ws''] (file_path r)) (path_join [''ws''] (file_path r'))"
    using places by (simp add: example_listing_def)
  have guide: "\<forall>r \<in> set example_listing.
      \<not> prefix (path_join [''ws''] ''AGENT.md'') (path_join [''ws''] (file_path r))"
    using places by (simp add: example_listing_def)
  have empty: "\<forall>r \<in> set example_listing. clear_for Map.empty (path_join [''ws''] (file_path r))"
    "clear_for Map.empty (path_join [''ws''] ''AGENT.md'')"
    by (simp_all add: clear_for_def is_file_def list_ex_iff)
  have norm: "map (\<lambda>r. replace_backslashes (file_path r)) example_listing =
      [''views/pages/home.ejs'', ''css/site.css'']"
    by code_simp
  from snapshot_complete [OF listing declared keys inside apart free guide empty] places norm
  show ?thesis
    by (simp add: example_listing_def)
qed

text \<open>
  C7 as the spec states it fails for listings with pairwise distinct paths: a record
  at \<open>AGENT.md\<close> is overwritten by the reference document; with \<open>a\<close> and
  \<open>a/b\<close> the second write fails, the loop is left, and the second record has
  neither a file nor an entry; \<open>x.ejs\<close> and \<open>./x.ejs\<close> are one file, which
  ends with the content of the second record; the file of \<open>../out.ejs\<close> is
  written outside the workspace; and a path that ends in a slash cannot be written,
  so that the record after it is not downloaded either.
\<close>

theorem snapshot_incomplete:
  "disk (main (serving agent_listing) ''guide'' [''ws''] Map.empty) [''ws'', ''AGENT.md''] =
     Some (File ''guide'') \<and>
   console (main (serving agent_listing) ''guide'' [''ws''] Map.empty) =
     [FetchingSource, Downloaded 1] \<and>
   disk (main (serving nested_listing) ''guide'' [''ws''] Map.empty) [''ws'', ''a'', ''b''] = None \<and>
   fileMap (main (serving nested_listing) ''guide'' [''ws''] Map.empty) ''a/b'' = None \<and>
   console (main (serving nested_listing) ''guide'' [''ws''] Map.empty) =
     [FetchingSource, ErrorFetching] \<and>
   disk (main (serving dotted_listing) ''guide'' [''ws''] Map.empty) [''ws'', ''x.ejs''] =
     Some (File ''Y'') \<and>
   path_join [''ws''] ''./x.ejs'' = path_join [''ws''] ''x.ejs'' \<and>
   console (main (serving dotted_listing) ''guide'' [''ws''] Map.empty) =
     [FetchingSource, Downloaded 2] \<and>
   path_join [''ws''] ''../out.ejs'' = [''out.ejs''] \<and>
   disk (main (serving outside_listing) ''guide'' [''ws''] Map.empty) [''out.ejs''] =
     Some (File ''X'') \<and>
   console (main (serving outside_listing) ''guide'' [''ws''] Map.empty) =
     [FetchingSource, Downloaded 1] \<and>
   path_join [''ws''] ''dir/'' = [''ws'', ''dir'', []] \<and>
   disk (main (serving slash_listing) ''guide'' [''ws''] Map.empty) [''ws'', ''b.ejs''] = None \<and>
   fileMap (main (serving slash_listing) ''guide'' [''ws''] Map.empty) ''b.ejs'' = None \<and>
   console (main (serving slash_listing) ''guide'' [''ws''] Map.empty) =
     [FetchingSource, ErrorFetching]"
  by code_simp

end
